theory Spec2Isabelle
  imports Complex_Main
begin

section \<open>Values shared by the services\<close>

text \<open>
  A JavaScript \<^verbatim>\<open>Error\<close> object: its \<^verbatim>\<open>name\<close> and its \<^verbatim>\<open>message\<close>. The code reads
  \<^verbatim>\<open>(error as Error).message\<close> and interpolates rejection reasons into template strings,
  which calls \<^verbatim>\<open>Error.prototype.toString\<close>.
\<close>

datatype js_error = JsError (name: string) (message: string)

definition error_toString :: "js_error \<Rightarrow> string" where
  "error_toString e =
     (if name e = [] then message e
      else if message e = [] then name e
      else name e @ '': '' @ message e)"

definition new_Error :: "string \<Rightarrow> js_error" where
  "new_Error msg = JsError ''Error'' msg"

text \<open>
  A JavaScript \<^verbatim>\<open>number\<close> as far as the services use it: prices are only compared with
  \<^verbatim>\<open>!==\<close> and passed on. \<^verbatim>\<open>NaN\<close> is kept apart because \<^verbatim>\<open>NaN !== NaN\<close> is true.
\<close>

datatype js_number = NaN | Num rat

definition strict_neq :: "js_number \<Rightarrow> js_number \<Rightarrow> bool" where
  "strict_neq a b = (a = NaN \<or> b = NaN \<or> a \<noteq> b)"

text \<open>Decimal rendering of a non-negative integer, as a template string does.\<close>

definition digit_char :: "nat \<Rightarrow> char" where
  "digit_char d =
     (if d = 0 then CHR ''0'' else if d = 1 then CHR ''1'' else if d = 2 then CHR ''2''
      else if d = 3 then CHR ''3'' else if d = 4 then CHR ''4'' else if d = 5 then CHR ''5''
      else if d = 6 then CHR ''6'' else if d = 7 then CHR ''7'' else if d = 8 then CHR ''8''
      else CHR ''9'')"

fun show_nat :: "nat \<Rightarrow> string" where
  "show_nat n =
     (if n < 10 then [digit_char n] else show_nat (n div 10) @ [digit_char (n mod 10)])"

declare show_nat.simps [simp del]

text \<open>The Nest \<^verbatim>\<open>Logger\<close>: a level and the formatted text (the stack argument is dropped).\<close>

datatype level = LOG | WARN | ERROR

section \<open>The message and the observable effects\<close>

text \<open>\<^verbatim>\<open>TokenPriceUpdateMessage\<close>: the payload sent to the broker.\<close>

record price_message =
  tokenId :: string
  msg_symbol :: string
  oldPrice :: js_number
  newPrice :: js_number
  msg_timestamp :: nat

text \<open>The \<^verbatim>\<open>Token\<close> entity, with the columns the update service reads or writes.\<close>

record token =
  token_id :: string
  symbol :: "string option"
  price :: js_number
  lastPriceUpdate :: nat

text \<open>
  Every call that leaves the service is recorded, in program order: the price source, the
  message constructor, the producer's \<^verbatim>\<open>send\<close>, each back-off \<^verbatim>\<open>setTimeout\<close>, the
  repository's \<^verbatim>\<open>save\<close>, and each logger line. \<open>PublishDone\<close> marks the point where
  \<^verbatim>\<open>await this.kafkaProducer.sendPriceUpdateMessage(message)\<close> has returned normally.
\<close>

datatype effect =
    PriceSource string
  | Construct string js_number js_number
  | Send string string nat
  | Sleep nat
  | PublishDone price_message
  | Save token
  | Log level string

text \<open>
  The collaborators whose code is outside the services: what the broker answers to the
  \<open>n\<close>-th \<^verbatim>\<open>send\<close> of a message, the Zod schema, \<^verbatim>\<open>JSON.stringify\<close>, the price source
  (per item of the tick), the repository, number formatting and the clock.
\<close>

record env =
  producer_send :: "string \<Rightarrow> string \<Rightarrow> nat \<Rightarrow> js_error option"
  schema_parse :: "price_message \<Rightarrow> js_error option"
  stringify :: "price_message \<Rightarrow> string"
  getRandomPriceForToken :: "string \<Rightarrow> js_error + js_number"
  repository_find :: "js_error option"
  repository_save :: "token \<Rightarrow> js_error option"
  show_number :: "js_number \<Rightarrow> string"
  now :: nat

section \<open>KafkaProducerService\<close>

record kafka_producer_service =
  isConnected :: bool

definition maxRetries :: nat where
  "maxRetries = 3"

definition retryDelay :: nat where
  "retryDelay = 1000"

text \<open>
  \<^verbatim>\<open>sendWithRetry(key, value, attempt = 1)\<close>. The recursion of the source is kept; it ends
  because a retry happens only below \<^verbatim>\<open>maxRetries\<close>. \<open>attempt\<close> starts at 1, where
  \<^verbatim>\<open>Math.pow(2, attempt - 1)\<close> is a power of two in the naturals.
\<close>

function sendWithRetry :: "env \<Rightarrow> string \<Rightarrow> string \<Rightarrow> nat \<Rightarrow> (js_error + unit) \<times> effect list" where
  "sendWithRetry e key val attempt =
     (case producer_send e key val attempt of
        None \<Rightarrow> (Inr (), [Send key val attempt])
      | Some error \<Rightarrow>
          (let errorMessage = message error;
               failed = [Send key val attempt,
                         Log ERROR (''Error sending message (attempt '' @ show_nat attempt @ ''/''
                                    @ show_nat maxRetries @ ''): '' @ errorMessage)]
           in if attempt < maxRetries then
                (let delay = retryDelay * 2 ^ (attempt - 1);
                     waited = [Log LOG (''Retrying in '' @ show_nat delay @ ''ms...''), Sleep delay];
                     rest = sendWithRetry e key val (attempt + 1)
                 in (fst rest, failed @ waited @ snd rest))
              else
                (Inl (new_Error (''Failed to send message after '' @ show_nat maxRetries
                                 @ '' attempts: '' @ errorMessage)), failed)))"
  by pat_completeness auto
termination
  by (relation "measure (\<lambda>(e, key, val, attempt). maxRetries - attempt)") auto

declare sendWithRetry.simps [simp del]

text \<open>\<^verbatim>\<open>sendPriceUpdateMessage(message)\<close>.\<close>

definition sendPriceUpdateMessage ::
  "env \<Rightarrow> kafka_producer_service \<Rightarrow> price_message \<Rightarrow> (js_error + unit) \<times> effect list" where
  "sendPriceUpdateMessage e k m =
     (if \<not> isConnected k then (Inl (new_Error ''Kafka producer is not connected''), [])
      else case schema_parse e m of
             Some zerr \<Rightarrow> (Inl zerr, [])
           | None \<Rightarrow>
               (let val = stringify e m;
                    sent = sendWithRetry e (tokenId m) val 1
                in case fst sent of
                     Inl err \<Rightarrow> (Inl err, snd sent)
                   | Inr u \<Rightarrow> (Inr (), snd sent @ [Log LOG (''Sent message to Kafka: '' @ val)])))"

text \<open>Projections of a trace: the attempt numbers sent, and the delays slept.\<close>

fun sends_of :: "effect list \<Rightarrow> nat list" where
  "sends_of [] = []"
| "sends_of (Send k v n # tr) = n # sends_of tr"
| "sends_of (x # tr) = sends_of tr"

fun sleeps_of :: "effect list \<Rightarrow> nat list" where
  "sleeps_of [] = []"
| "sleeps_of (Sleep d # tr) = d # sleeps_of tr"
| "sleeps_of (x # tr) = sleeps_of tr"


section \<open>TokenPriceUpdateService: one item\<close>

text \<open>\<^verbatim>\<open>token.symbol || 'UNKNOWN'\<close>: \<^verbatim>\<open>null\<close> and the empty string are falsy.\<close>

definition symbol_or_unknown :: "token \<Rightarrow> string" where
  "symbol_or_unknown t =
     (case symbol t of None \<Rightarrow> ''UNKNOWN'' | Some s \<Rightarrow> if s = [] then ''UNKNOWN'' else s)"

text \<open>\<^verbatim>\<open>${token.symbol}\<close> in a template string.\<close>

definition symbol_text :: "token \<Rightarrow> string" where
  "symbol_text t = (case symbol t of None \<Rightarrow> ''null'' | Some s \<Rightarrow> s)"

text \<open>
  Modelled from the spec: \<^verbatim>\<open>createTokenPriceUpdateMessage\<close> of
  \<^verbatim>\<open>models/token-price-update-message\<close>, which is not among the sources. The event carries
  the item id, the symbol, the old and the new price, and a timestamp that defaults to the
  creation time; the helper validates with the Zod schema, which may reject.
\<close>

definition createTokenPriceUpdateMessage ::
  "env \<Rightarrow> string \<Rightarrow> string \<Rightarrow> js_number \<Rightarrow> js_number \<Rightarrow> js_error + price_message" where
  "createTokenPriceUpdateMessage e i sy oldP newP =
     (let m = \<lparr>tokenId = i, msg_symbol = sy, oldPrice = oldP, newPrice = newP,
                msg_timestamp = now e\<rparr>
      in case schema_parse e m of Some zerr \<Rightarrow> Inl zerr | None \<Rightarrow> Inr m)"

text \<open>
  The \<^verbatim>\<open>tokens\<close> table as the list of its rows. \<^verbatim>\<open>save\<close> writes the row with the entity's
  primary key, or inserts it.
\<close>

definition store_save :: "token \<Rightarrow> token list \<Rightarrow> token list" where
  "store_save t st =
     (if token_id t \<in> set (map token_id st)
      then map (\<lambda>u. if token_id u = token_id t then t else u) st
      else st @ [t])"

definition stored_price :: "token list \<Rightarrow> string \<Rightarrow> js_number option" where
  "stored_price st i = map_option price (find (\<lambda>u. token_id u = i) st)"

text \<open>
  \<^verbatim>\<open>updateTokenPrice(token)\<close>. The result is the settlement of its promise (\<open>Inl\<close> the
  rejection reason), the effects in program order, and the table afterwards.
\<close>

definition updateTokenPrice ::
  "env \<Rightarrow> kafka_producer_service \<Rightarrow> token list \<Rightarrow> token
     \<Rightarrow> (js_error + unit) \<times> effect list \<times> token list" where
  "updateTokenPrice e k st t =
     (let oldP = price t
      in case getRandomPriceForToken e (token_id t) of
           Inl err \<Rightarrow> (Inl err, [PriceSource (token_id t)], st)
         | Inr newP \<Rightarrow>
             if strict_neq oldP newP then
               (let built = [PriceSource (token_id t), Construct (token_id t) oldP newP]
                in case createTokenPriceUpdateMessage e (token_id t) (symbol_or_unknown t) oldP newP of
                     Inl err \<Rightarrow> (Inl err, built, st)
                   | Inr m \<Rightarrow>
                       (let pub = sendPriceUpdateMessage e k m
                        in case fst pub of
                             Inl err \<Rightarrow> (Inl err, built @ snd pub, st)
                           | Inr u \<Rightarrow>
                               (let t' = t\<lparr>price := newP, lastPriceUpdate := now e\<rparr>;
                                    tr = built @ snd pub @ [PublishDone m, Save t']
                                in case repository_save e t' of
                                     Some err \<Rightarrow> (Inl err, tr, st)
                                   | None \<Rightarrow>
                                       (Inr (),
                                        tr @ [Log LOG (''Updated price for '' @ symbol_text t' @ '': ''
                                                       @ show_number e oldP @ '' -> ''
                                                       @ show_number e newP)],
                                        store_save t' st))))
             else (Inr (), [PriceSource (token_id t)], st))"

section \<open>TokenPriceUpdateService: one tick\<close>

text \<open>
  \<^verbatim>\<open>Promise.allSettled(tokens.map(token => this.updateTokenPrice(token)))\<close>: one settlement
  per token, in the order of \<^verbatim>\<open>tokens\<close>, each item with its own effects in its own program
  order, and the table after all of them. Every item reads its own entity and writes its
  own row, so the table is threaded through the items in turn.
\<close>

fun allSettled ::
  "env \<Rightarrow> kafka_producer_service \<Rightarrow> token list \<Rightarrow> token list
     \<Rightarrow> (js_error + unit) list \<times> effect list list \<times> token list" where
  "allSettled e k [] st = ([], [], st)"
| "allSettled e k (t # ts) st =
     (let one = updateTokenPrice e k st t;
          more = allSettled e k ts (snd (snd one))
      in (fst one # fst more, fst (snd one) # fst (snd more), snd (snd more)))"

text \<open>
  \<^verbatim>\<open>tokens.map\<close> starts every item before any of them resumes, so the effects of different
  items interleave in the order in which the runtime resumes them. That order is a
  parameter: a schedule names, effect by effect, the item whose next effect comes; what a
  schedule leaves over follows in item order. Every order the runtime can produce is the
  interleaving of some schedule.
\<close>

fun interleave :: "nat list \<Rightarrow> effect list list \<Rightarrow> effect list" where
  "interleave [] trs = concat trs"
| "interleave (i # sch) trs =
     (if i < length trs
      then (case trs ! i of
              [] \<Rightarrow> interleave sch trs
            | x # rest \<Rightarrow> x # interleave sch (trs[i := rest]))
      else interleave sch trs)"

fun rejected :: "(js_error + unit) list \<Rightarrow> js_error list" where
  "rejected [] = []"
| "rejected (Inl reason # rs) = reason # rejected rs"
| "rejected (Inr u # rs) = rejected rs"

text \<open>
  The row of an item after its own update, run alone on a table that holds only that row.
\<close>

definition row_after :: "env \<Rightarrow> kafka_producer_service \<Rightarrow> token \<Rightarrow> token" where
  "row_after e k t = hd (snd (snd (updateTokenPrice e k [t] t)))"

text \<open>
  The \<^verbatim>\<open>try\<close> block of \<^verbatim>\<open>updatePrices\<close>: \<open>Inl\<close> when \<^verbatim>\<open>find()\<close> throws, otherwise the
  settlements; with the effects and the table afterwards.
\<close>

definition updatePrices_try ::
  "env \<Rightarrow> kafka_producer_service \<Rightarrow> nat list \<Rightarrow> token list
     \<Rightarrow> (js_error + (js_error + unit) list) \<times> effect list \<times> token list" where
  "updatePrices_try e k sch st =
     (case repository_find e of
        Some err \<Rightarrow> (Inl err, [], st)
      | None \<Rightarrow>
          (let tokens = st;
               started = [Log LOG (''Updating prices for '' @ show_nat (length tokens) @ '' tokens...'')];
               settled = allSettled e k tokens st;
               results = fst settled;
               failures = rejected results;
               report =
                 (if length failures > 0
                  then Log WARN (show_nat (length failures) @ '' token(s) failed to update'')
                       # map (\<lambda>reason. Log ERROR (''Failed to update token: '' @ error_toString reason))
                             failures
                  else [])
           in (Inr results, started @ interleave sch (fst (snd settled)) @ report,
               snd (snd settled))))"

text \<open>Log lines of a trace at a given level.\<close>

fun lines_at :: "level \<Rightarrow> effect list \<Rightarrow> string list" where
  "lines_at l [] = []"
| "lines_at l (Log l' txt # tr) = (if l' = l then txt # lines_at l tr else lines_at l tr)"
| "lines_at l (x # tr) = lines_at l tr"

fun logs_of :: "effect list \<Rightarrow> (level \<times> string) list" where
  "logs_of [] = []"
| "logs_of (Log l txt # tr) = (l, txt) # logs_of tr"
| "logs_of (x # tr) = logs_of tr"

fun saves_of :: "effect list \<Rightarrow> token list" where
  "saves_of [] = []"
| "saves_of (Save t # tr) = t # saves_of tr"
| "saves_of (x # tr) = saves_of tr"

fun constructs_of :: "effect list \<Rightarrow> (js_number \<times> js_number) list" where
  "constructs_of [] = []"
| "constructs_of (Construct i oldP newP # tr) = (oldP, newP) # constructs_of tr"
| "constructs_of (x # tr) = constructs_of tr"


section \<open>TokenPriceUpdateService: the scheduler\<close>

text \<open>
  A call of the asynchronous \<^verbatim>\<open>stop()\<close> is either suspended in the \<^verbatim>\<open>await\<close> of its
  wait loop, with the value of \<^verbatim>\<open>attempts\<close>, or it has returned.
\<close>

datatype stop_status = Sleeping nat | Returned

text \<open>
  The fields of the service, its logger output, and what the Node runtime holds for it:
  the number of armed intervals, the number of \<^verbatim>\<open>updatePrices\<close> calls that are between
  setting the flag and their \<^verbatim>\<open>finally\<close>, and the promise of every \<^verbatim>\<open>stop()\<close> call (a
  promise is named by its position).
\<close>

record scheduler =
  timer :: bool
  updateIntervalSeconds :: nat
  isRunning :: bool
  isProcessing :: bool
  shutdownPromise :: "nat option"
  out :: "effect list"
  armedIntervals :: nat
  ticksInFlight :: nat
  stopCalls :: "stop_status list"

definition new_service :: "nat \<Rightarrow> scheduler" where
  "new_service interval =
     \<lparr>timer = False, updateIntervalSeconds = interval, isRunning = False, isProcessing = False,
      shutdownPromise = None, out = [], armedIntervals = 0, ticksInFlight = 0, stopCalls = []\<rparr>"

definition logger :: "level \<Rightarrow> string \<Rightarrow> scheduler \<Rightarrow> scheduler" where
  "logger l txt s = s\<lparr>out := out s @ [Log l txt]\<rparr>"

text \<open>
  \<^verbatim>\<open>updatePrices()\<close> runs without interruption from its call to the first \<^verbatim>\<open>await\<close>:
  the guard and the assignment of the flag. It resumes when the work of the \<^verbatim>\<open>try\<close> block
  has settled: the \<^verbatim>\<open>catch\<close> when it threw, and the \<^verbatim>\<open>finally\<close>.
\<close>

definition updatePrices_begin :: "scheduler \<Rightarrow> scheduler" where
  "updatePrices_begin s =
     (if isProcessing s then s
      else s\<lparr>isProcessing := True, ticksInFlight := ticksInFlight s + 1\<rparr>)"

definition updatePrices_end :: "js_error option \<Rightarrow> scheduler \<Rightarrow> scheduler" where
  "updatePrices_end thrown s =
     (let s1 = (case thrown of
                  None \<Rightarrow> s
                | Some err \<Rightarrow> logger ERROR (''Error updating prices: '' @ message err) s)
      in s1\<lparr>isProcessing := False, ticksInFlight := ticksInFlight s1 - 1\<rparr>)"

text \<open>The callback given to \<^verbatim>\<open>setInterval\<close>.\<close>

definition interval_callback :: "scheduler \<Rightarrow> scheduler" where
  "interval_callback s =
     (if isProcessing s
      then logger WARN ''Previous update still in progress, skipping this iteration'' s
      else updatePrices_begin s)"

text \<open>\<^verbatim>\<open>start()\<close>, up to the first suspension of the initial \<^verbatim>\<open>updatePrices()\<close>.\<close>

definition start :: "scheduler \<Rightarrow> scheduler" where
  "start s =
     (if isRunning s then logger WARN ''Price update service is already running'' s
      else
        (let s1 = s\<lparr>isRunning := True\<rparr>;
             s2 = logger LOG (''Starting price update service (interval: ''
                              @ show_nat (updateIntervalSeconds s1) @ '' seconds)...'') s1;
             s3 = s2\<lparr>timer := True, armedIntervals := armedIntervals s2 + 1\<rparr>
         in updatePrices_begin s3))"

definition stop_maxAttempts :: nat where
  "stop_maxAttempts = 30"

text \<open>
  The head of the \<^verbatim>\<open>while\<close> loop of \<^verbatim>\<open>stop()\<close> and what follows the loop. Entering the
  body suspends the call in \<^verbatim>\<open>setTimeout(resolve, 1000)\<close>.
\<close>

definition stop_loop :: "nat \<Rightarrow> scheduler \<Rightarrow> stop_status \<times> scheduler" where
  "stop_loop attempts s =
     (if isProcessing s \<and> attempts < stop_maxAttempts
      then (Sleeping attempts, s\<lparr>out := out s @ [Sleep 1000]\<rparr>)
      else
        (let s1 = (if isProcessing s then logger WARN ''Forced shutdown after timeout'' s else s)
         in (Returned, logger LOG ''Price update service stopped'' s1)))"

text \<open>\<^verbatim>\<open>stop()\<close> from its call to its first suspension or its return.\<close>

definition stop_begin :: "scheduler \<Rightarrow> stop_status \<times> scheduler" where
  "stop_begin s =
     (if \<not> isRunning s then (Returned, logger WARN ''Price update service is not running'' s)
      else
        (let s1 = logger LOG ''Stopping price update service...'' s;
             s2 = s1\<lparr>isRunning := False\<rparr>;
             s3 = (if timer s2
                   then s2\<lparr>armedIntervals := armedIntervals s2 - 1, timer := False\<rparr>
                   else s2)
         in if isProcessing s3
            then stop_loop 0 (logger LOG ''Waiting for current price update to complete...'' s3)
            else (Returned, logger LOG ''Price update service stopped'' s3)))"

text \<open>The continuation of a suspended \<^verbatim>\<open>stop()\<close> when its timeout fires: \<^verbatim>\<open>attempts++\<close>.\<close>

definition stop_resume :: "nat \<Rightarrow> scheduler \<Rightarrow> stop_status \<times> scheduler" where
  "stop_resume attempts s = stop_loop (attempts + 1) s"

text \<open>
  \<^verbatim>\<open>onModuleDestroy()\<close>: the promise it awaits, and the state after its synchronous part.
\<close>

definition onModuleDestroy :: "scheduler \<Rightarrow> nat \<times> scheduler" where
  "onModuleDestroy s =
     (case shutdownPromise s of
        Some p \<Rightarrow> (p, s)
      | None \<Rightarrow>
          (let r = stop_begin s;
               p = length (stopCalls (snd r))
           in (p, (snd r)\<lparr>stopCalls := stopCalls (snd r) @ [fst r], shutdownPromise := Some p\<rparr>)))"

text \<open>
  What can happen to the service, one uninterrupted run of JavaScript each: a call of
  \<^verbatim>\<open>start()\<close>, a firing of an armed interval, the settling of the work of the tick in
  flight (with the error when it threw), a call of \<^verbatim>\<open>stop()\<close> or of
  \<^verbatim>\<open>onModuleDestroy()\<close>, and the timeout of a suspended \<^verbatim>\<open>stop()\<close>.
\<close>

datatype event =
    CallStart
  | TimerFire
  | TickSettled "js_error option"
  | CallStop
  | CallDestroy
  | StopWake nat

definition step :: "event \<Rightarrow> scheduler \<Rightarrow> scheduler" where
  "step ev s =
     (case ev of
        CallStart \<Rightarrow> start s
      | TimerFire \<Rightarrow> if armedIntervals s > 0 then interval_callback s else s
      | TickSettled thrown \<Rightarrow> if ticksInFlight s > 0 then updatePrices_end thrown s else s
      | CallStop \<Rightarrow>
          (let r = stop_begin s in (snd r)\<lparr>stopCalls := stopCalls (snd r) @ [fst r]\<rparr>)
      | CallDestroy \<Rightarrow> snd (onModuleDestroy s)
      | StopWake p \<Rightarrow>
          (if p < length (stopCalls s)
           then (case stopCalls s ! p of
                   Returned \<Rightarrow> s
                 | Sleeping attempts \<Rightarrow>
                     (let r = stop_resume attempts s
                      in (snd r)\<lparr>stopCalls := (stopCalls (snd r))[p := fst r]\<rparr>))
           else s))"

fun run :: "event list \<Rightarrow> scheduler \<Rightarrow> scheduler" where
  "run [] s = s"
| "run (ev # evs) s = run evs (step ev s)"

text \<open>
  What the guard keeps true of the flag and of the interval handle.
\<close>

definition guarded :: "scheduler \<Rightarrow> bool" where
  "guarded s \<longleftrightarrow> ticksInFlight s = (if isProcessing s then 1 else 0)
                 \<and> armedIntervals s = (if timer s then 1 else 0)
                 \<and> (timer s \<longrightarrow> isRunning s)"

text \<open>
  A whole \<^verbatim>\<open>stop()\<close> call: between two polls the rest of the program runs (\<open>between n\<close>
  during the \<open>n\<close>-th sleep). The result counts the sleeps of the call.
\<close>

function stop_await ::
  "(nat \<Rightarrow> scheduler \<Rightarrow> scheduler) \<Rightarrow> stop_status \<Rightarrow> scheduler \<Rightarrow> nat \<times> scheduler" where
  "stop_await between Returned s = (0, s)"
| "stop_await between (Sleeping attempts) s =
     (let r = stop_resume attempts (between attempts s);
          w = stop_await between (fst r) (snd r)
      in (Suc (fst w), snd w))"
  by pat_completeness auto
termination
  by (relation "measure (\<lambda>(between, st, s).
         case st of Returned \<Rightarrow> 0 | Sleeping a \<Rightarrow> Suc (stop_maxAttempts - a))")
     (auto simp: stop_resume_def stop_loop_def split: if_splits)

definition stop :: "(nat \<Rightarrow> scheduler \<Rightarrow> scheduler) \<Rightarrow> scheduler \<Rightarrow> nat \<times> scheduler" where
  "stop between s = (let r = stop_begin s in stop_await between (fst r) (snd r))"

text \<open>
  A whole tick with nothing else of the service in between: \<^verbatim>\<open>updatePrices()\<close> from the
  guard to the \<^verbatim>\<open>finally\<close>, on the service and the table, its items resumed in the order
  of the schedule.
\<close>

definition updatePrices ::
  "env \<Rightarrow> kafka_producer_service \<Rightarrow> nat list \<Rightarrow> scheduler \<times> token list
     \<Rightarrow> scheduler \<times> token list" where
  "updatePrices e k sch w =
     (let s = fst w; st = snd w
      in if isProcessing s then (s, st)
         else
           (let s1 = updatePrices_begin s;
                body = updatePrices_try e k sch st;
                s2 = s1\<lparr>out := out s1 @ fst (snd body)\<rparr>;
                thrown = (case fst body of Inl err \<Rightarrow> Some err | Inr results \<Rightarrow> None)
            in (updatePrices_end thrown s2, snd (snd body))))"


section \<open>Token.price: the column and its transformer\<close>









section \<open>A sample environment\<close>

text \<open>
  Collaborators for worked instances: a broker that rejects the \<open>n\<close>-th send of key \<open>key\<close>
  when \<open>brokerFails key n\<close>, a schema that accepts, a given price source and a given
  repository \<^verbatim>\<open>save\<close>.
\<close>

definition sample_env ::
  "(string \<Rightarrow> nat \<Rightarrow> bool) \<Rightarrow> (string \<Rightarrow> js_error + js_number) \<Rightarrow> (token \<Rightarrow> js_error option) \<Rightarrow> env" where
  "sample_env brokerFails prices saves =
     \<lparr>producer_send = (\<lambda>key val n. if brokerFails key n
                                      then Some (new_Error ''broker unavailable'') else None),
      schema_parse = (\<lambda>m. None),
      stringify = (\<lambda>m. tokenId m),
      getRandomPriceForToken = prices,
      repository_find = None,
      repository_save = saves,
      show_number = (\<lambda>x. case x of NaN \<Rightarrow> ''NaN'' | Num q \<Rightarrow> ''#''),
      now = 1000\<rparr>"

definition connected_producer :: kafka_producer_service where
  "connected_producer = \<lparr>isConnected = True\<rparr>"

text \<open>
  Four of them: a price source that throws, a repository whose \<^verbatim>\<open>save\<close> throws with the
  same message, a broker that rejects every send with key \<open>B\<close>, and one where the price
  source throws for item \<open>A\<close> and \<^verbatim>\<open>save\<close> throws for item \<open>B\<close>.
\<close>

definition env_source_down :: env where
  "env_source_down = sample_env (\<lambda>key n. False) (\<lambda>i. Inl (new_Error ''timeout'')) (\<lambda>t. None)"

definition env_store_down :: env where
  "env_store_down
     = sample_env (\<lambda>key n. False) (\<lambda>i. Inr (Num 2)) (\<lambda>t. Some (new_Error ''timeout''))"

definition env_broker_rejects_B :: env where
  "env_broker_rejects_B = sample_env (\<lambda>key n. key = ''B'') (\<lambda>i. Inr (Num 2)) (\<lambda>t. None)"

definition env_mixed :: env where
  "env_mixed
     = sample_env (\<lambda>key n. False)
         (\<lambda>i. if i = ''A'' then Inl (new_Error ''source down'') else Inr (Num 2))
         (\<lambda>t. if token_id t = ''B'' then Some (new_Error ''store down'') else None)"

definition tokenA :: token where
  "tokenA = \<lparr>token_id = ''A'', symbol = Some ''AAA'', price = Num 1, lastPriceUpdate = 0\<rparr>"

definition tokenB :: token where
  "tokenB = \<lparr>token_id = ''B'', symbol = Some ''BBB'', price = Num 1, lastPriceUpdate = 0\<rparr>"

definition tokenC :: token where
  "tokenC = \<lparr>token_id = ''C'', symbol = None, price = Num 1, lastPriceUpdate = 0\<rparr>"

section \<open>The retry protocol of the producer\<close>

lemma sample_env_sel [simp]:
  "producer_send (sample_env b p sv) key val n
     = (if b key n then Some (new_Error ''broker unavailable'') else None)"
  "schema_parse (sample_env b p sv) m = None"
  "stringify (sample_env b p sv) m = tokenId m"
  "getRandomPriceForToken (sample_env b p sv) = p"
  "repository_find (sample_env b p sv) = None"
  "repository_save (sample_env b p sv) = sv"
  "now (sample_env b p sv) = 1000"
  "show_number (sample_env b p sv) x = (case x of NaN \<Rightarrow> ''NaN'' | Num q \<Rightarrow> ''#'')"
  by (simp_all add: sample_env_def)

lemma sends_of_append: "sends_of (xs @ ys) = sends_of xs @ sends_of ys"
  by (induction xs rule: sends_of.induct) auto

lemma sleeps_of_append: "sleeps_of (xs @ ys) = sleeps_of xs @ sleeps_of ys"
  by (induction xs rule: sleeps_of.induct) auto

lemma sendWithRetry_ok:
  "producer_send e key val n = None \<Longrightarrow> sendWithRetry e key val n = (Inr (), [Send key val n])"
  by (simp add: sendWithRetry.simps)

lemma sendWithRetry_retry:
  "producer_send e key val n = Some err \<Longrightarrow> n < maxRetries \<Longrightarrow> m = n + 1 \<Longrightarrow>
   sendWithRetry e key val n =
     (fst (sendWithRetry e key val m),
      [Send key val n,
       Log ERROR (''Error sending message (attempt '' @ show_nat n @ ''/'' @ show_nat maxRetries
                  @ ''): '' @ message err),
       Log LOG (''Retrying in '' @ show_nat (retryDelay * 2 ^ (n - 1)) @ ''ms...''),
       Sleep (retryDelay * 2 ^ (n - 1))] @ snd (sendWithRetry e key val m))"
  by (subst sendWithRetry.simps) (simp add: Let_def)

lemma sendWithRetry_last:
  "producer_send e key val n = Some err \<Longrightarrow> \<not> n < maxRetries \<Longrightarrow>
   sendWithRetry e key val n =
     (Inl (new_Error (''Failed to send message after '' @ show_nat maxRetries
                                 @ '' attempts: '' @ message err)),
      [Send key val n,
       Log ERROR (''Error sending message (attempt '' @ show_nat n @ ''/'' @ show_nat maxRetries
                  @ ''): '' @ message err)])"
  by (subst sendWithRetry.simps) (simp add: Let_def)

lemma sendWithRetry_retry_proj:
  assumes "producer_send e key val n = Some err" and "n < maxRetries" and "m = n + 1"
  shows "fst (sendWithRetry e key val n) = fst (sendWithRetry e key val m)"
    and "sends_of (snd (sendWithRetry e key val n)) = n # sends_of (snd (sendWithRetry e key val m))"
    and "sleeps_of (snd (sendWithRetry e key val n))
           = retryDelay * 2 ^ (n - 1) # sleeps_of (snd (sendWithRetry e key val m))"
  unfolding sendWithRetry_retry [OF assms] by simp_all

lemma sendWithRetry_last_proj:
  assumes "producer_send e key val n = Some err" and "\<not> n < maxRetries"
  shows "fst (sendWithRetry e key val n)
           = Inl (new_Error (''Failed to send message after '' @ show_nat maxRetries
                             @ '' attempts: '' @ message err))"
    and "sends_of (snd (sendWithRetry e key val n)) = [n]"
    and "sleeps_of (snd (sendWithRetry e key val n)) = []"
  unfolding sendWithRetry_last [OF assms] by simp_all

lemma sendWithRetry_ok_proj:
  assumes "producer_send e key val n = None"
  shows "fst (sendWithRetry e key val n) = Inr ()"
    and "sends_of (snd (sendWithRetry e key val n)) = [n]"
    and "sleeps_of (snd (sendWithRetry e key val n)) = []"
  unfolding sendWithRetry_ok [OF assms] by simp_all

lemma next_attempt: "2 = 1 + (1::nat)" "3 = 2 + (1::nat)"
  by simp_all

lemma lt_maxRetries: "1 < maxRetries" "2 < maxRetries" "\<not> 3 < maxRetries"
  by (simp_all add: maxRetries_def)

lemma delays_from_sends:
  "sleeps_of (snd (sendWithRetry e key val 1))
     = map (\<lambda>n. retryDelay * 2 ^ (n - 1)) (butlast (sends_of (snd (sendWithRetry e key val 1))))"
proof (cases "producer_send e key val 1")
  case None
  then show ?thesis by (simp add: sendWithRetry_ok_proj)
next
  case a1: (Some e1)
  note p1 = sendWithRetry_retry_proj [OF a1 lt_maxRetries(1) next_attempt(1)]
  show ?thesis
  proof (cases "producer_send e key val 2")
    case None
    then show ?thesis unfolding p1 sendWithRetry_ok_proj [OF None] by simp
  next
    case a2: (Some e2)
    note p2 = sendWithRetry_retry_proj [OF a2 lt_maxRetries(2) next_attempt(2)]
    show ?thesis
    proof (cases "producer_send e key val 3")
      case None
      then show ?thesis unfolding p1 p2 sendWithRetry_ok_proj [OF None] by simp
    next
      case a3: (Some e3)
      show ?thesis unfolding p1 p2 sendWithRetry_last_proj [OF a3 lt_maxRetries(3)] by simp
    qed
  qed
qed


text \<open>
  C4. From attempt 1, the delay slept before attempt \<open>n + 1\<close> is
  \<open>retryDelay * 2 ^ (n - 1)\<close> with \<open>retryDelay = 1000\<close>, whatever the broker answers: the
  delays are this function of every attempt but the last. When the broker fails attempts 1
  and 2 and accepts attempt 3, the send succeeds after exactly the attempts 1, 2, 3 with the
  delays 1000 ms and 2000 ms, at least 3000 ms in all.
\<close>

theorem backoff_schedule:
  "sleeps_of (snd (sendWithRetry e key val 1))
     = map (\<lambda>n. retryDelay * 2 ^ (n - 1)) (butlast (sends_of (snd (sendWithRetry e key val 1))))
   \<and> retryDelay = 1000
   \<and> (producer_send e key val 1 \<noteq> None \<and> producer_send e key val 2 \<noteq> None
        \<and> producer_send e key val 3 = None
      \<longrightarrow> fst (sendWithRetry e key val 1) = Inr ()
        \<and> sleeps_of (snd (sendWithRetry e key val 1)) = [1000, 2000]
        \<and> sum_list (sleeps_of (snd (sendWithRetry e key val 1))) \<ge> 3000
        \<and> sends_of (snd (sendWithRetry e key val 1)) = [1, 2, 3]
        \<and> length (sends_of (snd (sendWithRetry e key val 1))) = 3)"
proof (intro conjI impI)
  show "sleeps_of (snd (sendWithRetry e key val 1))
     = map (\<lambda>n. retryDelay * 2 ^ (n - 1)) (butlast (sends_of (snd (sendWithRetry e key val 1))))"
    by (rule delays_from_sends)
  show "retryDelay = 1000" by (simp add: retryDelay_def)
next
  assume h: "producer_send e key val 1 \<noteq> None \<and> producer_send e key val 2 \<noteq> None
        \<and> producer_send e key val 3 = None"
  then obtain e1 e2 where a1: "producer_send e key val 1 = Some e1"
    and a2: "producer_send e key val 2 = Some e2" and a3: "producer_send e key val 3 = None"
    by auto
  note p1 = sendWithRetry_retry_proj [OF a1 lt_maxRetries(1) next_attempt(1)]
  note p2 = sendWithRetry_retry_proj [OF a2 lt_maxRetries(2) next_attempt(2)]
  note p3 = sendWithRetry_ok_proj [OF a3]
  show "fst (sendWithRetry e key val 1) = Inr ()" unfolding p1 p2 p3 by simp
  show "sleeps_of (snd (sendWithRetry e key val 1)) = [1000, 2000]"
    unfolding p1 p2 p3 by (simp add: retryDelay_def)
  show "sum_list (sleeps_of (snd (sendWithRetry e key val 1))) \<ge> 3000"
    unfolding p1 p2 p3 by (simp add: retryDelay_def)
  show "sends_of (snd (sendWithRetry e key val 1)) = [1, 2, 3]" unfolding p1 p2 p3 by simp
  show "length (sends_of (snd (sendWithRetry e key val 1))) = 3" unfolding p1 p2 p3 by simp
qed


theorem backoff_schedule_witness:
  "producer_send (sample_env (\<lambda>key n. n < 3) (\<lambda>i. Inr NaN) (\<lambda>t. None)) ''A'' ''v'' 1 \<noteq> None
   \<and> producer_send (sample_env (\<lambda>key n. n < 3) (\<lambda>i. Inr NaN) (\<lambda>t. None)) ''A'' ''v'' 2 \<noteq> None
   \<and> producer_send (sample_env (\<lambda>key n. n < 3) (\<lambda>i. Inr NaN) (\<lambda>t. None)) ''A'' ''v'' 3 = None
   \<and> sleeps_of (snd (sendWithRetry (sample_env (\<lambda>key n. n < 3) (\<lambda>i. Inr NaN) (\<lambda>t. None))
                       ''A'' ''v'' 1)) = [1000, 2000]
   \<and> sends_of (snd (sendWithRetry (sample_env (\<lambda>key n. n < 3) (\<lambda>i. Inr NaN) (\<lambda>t. None))
                       ''A'' ''v'' 1)) = [1, 2, 3]"
  using backoff_schedule [of "sample_env (\<lambda>key n. n < 3) (\<lambda>i. Inr NaN) (\<lambda>t. None)" "''A''" "''v''"]
  by simp

text \<open>
  C5. With the client connected and a message the schema accepts, a broker that rejects
  every send gets exactly \<open>maxRetries = 3\<close> sends, the attempts 1, 2, 3, and the publish
  fails with the error \<^verbatim>\<open>Failed to send message after 3 attempts: ...\<close> carrying the last
  broker error. With the client not connected the publish fails at once with
  \<^verbatim>\<open>Kafka producer is not connected\<close> and no effect at all: no send, no sleep.
\<close>

theorem retry_ceiling:
  "(isConnected k \<and> schema_parse e m = None
      \<and> (\<forall>n. producer_send e (tokenId m) (stringify e m) n \<noteq> None)
    \<longrightarrow> sends_of (snd (sendPriceUpdateMessage e k m)) = [1, 2, 3]
      \<and> length (sends_of (snd (sendPriceUpdateMessage e k m))) = maxRetries
      \<and> maxRetries = 3
      \<and> (\<exists>err. producer_send e (tokenId m) (stringify e m) 3 = Some err
            \<and> fst (sendPriceUpdateMessage e k m)
                = Inl (new_Error (''Failed to send message after 3 attempts: '' @ message err))))
   \<and> (\<not> isConnected k
    \<longrightarrow> sendPriceUpdateMessage e k m = (Inl (new_Error ''Kafka producer is not connected''), []))"
proof (intro conjI impI)
  assume h: "isConnected k \<and> schema_parse e m = None
      \<and> (\<forall>n. producer_send e (tokenId m) (stringify e m) n \<noteq> None)"
  then obtain e1 e2 e3 where a1: "producer_send e (tokenId m) (stringify e m) 1 = Some e1"
    and a2: "producer_send e (tokenId m) (stringify e m) 2 = Some e2"
    and a3: "producer_send e (tokenId m) (stringify e m) 3 = Some e3"
    by (meson option.exhaust)
  note p1 = sendWithRetry_retry_proj [OF a1 lt_maxRetries(1) next_attempt(1)]
  note p2 = sendWithRetry_retry_proj [OF a2 lt_maxRetries(2) next_attempt(2)]
  note p3 = sendWithRetry_last_proj [OF a3 lt_maxRetries(3)]
  have f: "fst (sendWithRetry e (tokenId m) (stringify e m) 1)
             = Inl (new_Error (''Failed to send message after 3 attempts: '' @ message e3))"
    unfolding p1 p2 p3 by (simp add: maxRetries_def show_nat.simps digit_char_def)
  have s: "sends_of (snd (sendWithRetry e (tokenId m) (stringify e m) 1)) = [1, 2, 3]"
    unfolding p1 p2 p3 by simp
  have pub: "sendPriceUpdateMessage e k m
               = (Inl (new_Error (''Failed to send message after 3 attempts: '' @ message e3)),
                  snd (sendWithRetry e (tokenId m) (stringify e m) 1))"
    using h f by (simp add: sendPriceUpdateMessage_def Let_def)
  show "sends_of (snd (sendPriceUpdateMessage e k m)) = [1, 2, 3]" unfolding pub snd_conv s ..
  show "length (sends_of (snd (sendPriceUpdateMessage e k m))) = maxRetries"
    unfolding pub snd_conv s by (simp add: maxRetries_def)
  show "maxRetries = 3" by (simp add: maxRetries_def)
  show "\<exists>err. producer_send e (tokenId m) (stringify e m) 3 = Some err
            \<and> fst (sendPriceUpdateMessage e k m)
                = Inl (new_Error (''Failed to send message after 3 attempts: '' @ message err))"
    unfolding pub fst_conv using a3 by simp
next
  assume "\<not> isConnected k"
  then show "sendPriceUpdateMessage e k m = (Inl (new_Error ''Kafka producer is not connected''), [])"
    by (simp add: sendPriceUpdateMessage_def)
qed

theorem retry_ceiling_witness:
  "isConnected connected_producer
   \<and> (\<forall>n. producer_send (sample_env (\<lambda>key n. True) (\<lambda>i. Inr NaN) (\<lambda>t. None)) ''A'' ''A'' n \<noteq> None)
   \<and> sends_of (snd (sendPriceUpdateMessage (sample_env (\<lambda>key n. True) (\<lambda>i. Inr NaN) (\<lambda>t. None))
        connected_producer
        \<lparr>tokenId = ''A'', msg_symbol = ''AAA'', oldPrice = Num 1, newPrice = Num 2,
         msg_timestamp = 1000\<rparr>)) = [1, 2, 3]
   \<and> fst (sendPriceUpdateMessage (sample_env (\<lambda>key n. True) (\<lambda>i. Inr NaN) (\<lambda>t. None))
        connected_producer
        \<lparr>tokenId = ''A'', msg_symbol = ''AAA'', oldPrice = Num 1, newPrice = Num 2,
         msg_timestamp = 1000\<rparr>)
       = Inl (new_Error ''Failed to send message after 3 attempts: broker unavailable'')
   \<and> \<not> isConnected \<lparr>isConnected = False\<rparr>
   \<and> sendPriceUpdateMessage (sample_env (\<lambda>key n. True) (\<lambda>i. Inr NaN) (\<lambda>t. None))
        \<lparr>isConnected = False\<rparr>
        \<lparr>tokenId = ''A'', msg_symbol = ''AAA'', oldPrice = Num 1, newPrice = Num 2,
         msg_timestamp = 1000\<rparr>
       = (Inl (new_Error ''Kafka producer is not connected''), [])"
  using retry_ceiling [of connected_producer "sample_env (\<lambda>key n. True) (\<lambda>i. Inr NaN) (\<lambda>t. None)"
          "\<lparr>tokenId = ''A'', msg_symbol = ''AAA'', oldPrice = Num 1, newPrice = Num 2,
            msg_timestamp = 1000\<rparr>"]
        retry_ceiling [of "\<lparr>isConnected = False\<rparr>" "sample_env (\<lambda>key n. True) (\<lambda>i. Inr NaN) (\<lambda>t. None)"
          "\<lparr>tokenId = ''A'', msg_symbol = ''AAA'', oldPrice = Num 1, newPrice = Num 2,
            msg_timestamp = 1000\<rparr>"]
  by (simp add: connected_producer_def new_Error_def)


section \<open>One item: fetch, compare, publish, persist\<close>

lemma saves_of_append: "saves_of (xs @ ys) = saves_of xs @ saves_of ys"
  by (induction xs rule: saves_of.induct) auto

lemma constructs_of_append: "constructs_of (xs @ ys) = constructs_of xs @ constructs_of ys"
  by (induction xs rule: constructs_of.induct) auto

lemma sendWithRetry_quiet:
  "saves_of (snd (sendWithRetry e key val n)) = [] \<and> constructs_of (snd (sendWithRetry e key val n)) = []"
proof (induction e key val n rule: sendWithRetry.induct)
  case (1 e key val attempt)
  show ?case
  proof (cases "producer_send e key val attempt")
    case None
    then show ?thesis by (simp add: sendWithRetry_ok)
  next
    case (Some err)
    show ?thesis
    proof (cases "attempt < maxRetries")
      case True
      with 1 [OF Some refl refl True refl refl] show ?thesis
        by (simp add: sendWithRetry_retry [OF Some True refl] saves_of_append constructs_of_append)
    next
      case False
      then show ?thesis by (simp add: sendWithRetry_last [OF Some False])
    qed
  qed
qed

lemma sendPriceUpdateMessage_trace:
  "snd (sendPriceUpdateMessage e k m) = []
   \<or> snd (sendPriceUpdateMessage e k m) = snd (sendWithRetry e (tokenId m) (stringify e m) 1)
   \<or> snd (sendPriceUpdateMessage e k m)
       = snd (sendWithRetry e (tokenId m) (stringify e m) 1)
         @ [Log LOG (''Sent message to Kafka: '' @ stringify e m)]"
proof (cases "isConnected k")
  case False
  then show ?thesis by (simp add: sendPriceUpdateMessage_def)
next
  case True
  show ?thesis
  proof (cases "schema_parse e m")
    case (Some zerr)
    with True show ?thesis by (simp add: sendPriceUpdateMessage_def)
  next
    case None
    show ?thesis
    proof (cases "fst (sendWithRetry e (tokenId m) (stringify e m) 1)")
      case (Inl err)
      with True None show ?thesis by (simp add: sendPriceUpdateMessage_def Let_def)
    next
      case (Inr u)
      with True None show ?thesis by (simp add: sendPriceUpdateMessage_def Let_def)
    qed
  qed
qed

lemma sendPriceUpdateMessage_quiet:
  "saves_of (snd (sendPriceUpdateMessage e k m)) = []"
  "constructs_of (snd (sendPriceUpdateMessage e k m)) = []"
  using sendPriceUpdateMessage_trace [of e k m] sendWithRetry_quiet [of e "tokenId m" "stringify e m" 1]
  by (auto simp: saves_of_append constructs_of_append)

lemma not_saved: "saves_of tr = [] \<Longrightarrow> Save t \<notin> set tr"
  by (induction tr rule: saves_of.induct) auto

lemma constructs_of_updateTokenPrice:
  "constructs_of (fst (snd (updateTokenPrice e k st t)))
     = (case getRandomPriceForToken e (token_id t) of
          Inl err \<Rightarrow> []
        | Inr newP \<Rightarrow> if strict_neq (price t) newP then [(price t, newP)] else [])"
proof (cases "getRandomPriceForToken e (token_id t)")
  case (Inl err)
  then show ?thesis by (simp add: updateTokenPrice_def)
next
  case (Inr newP)
  show ?thesis
  proof (cases "strict_neq (price t) newP")
    case False
    with Inr show ?thesis by (simp add: updateTokenPrice_def)
  next
    case True
    show ?thesis
    proof (cases "createTokenPriceUpdateMessage e (token_id t) (symbol_or_unknown t) (price t) newP")
      case (Inl err)
      with Inr True show ?thesis by (simp add: updateTokenPrice_def)
    next
      case m: (Inr m)
      show ?thesis
      proof (cases "fst (sendPriceUpdateMessage e k m)")
        case (Inl err)
        with Inr True m show ?thesis
          by (simp add: updateTokenPrice_def Let_def constructs_of_append sendPriceUpdateMessage_quiet)
      next
        case pub: (Inr u)
        show ?thesis
        proof (cases "repository_save e (t\<lparr>price := newP, lastPriceUpdate := now e\<rparr>)")
          case None
          with Inr True m pub show ?thesis
            by (simp add: updateTokenPrice_def Let_def constructs_of_append sendPriceUpdateMessage_quiet)
        next
          case (Some err)
          with Inr True m pub show ?thesis
            by (simp add: updateTokenPrice_def Let_def constructs_of_append sendPriceUpdateMessage_quiet)
        qed
      qed
    qed
  qed
qed

lemma updateTokenPrice_source_failed:
  "getRandomPriceForToken e (token_id t) = Inl err \<Longrightarrow>
   updateTokenPrice e k st t = (Inl err, [PriceSource (token_id t)], st)"
  by (simp add: updateTokenPrice_def)

lemma updateTokenPrice_unchanged:
  "getRandomPriceForToken e (token_id t) = Inr newP \<Longrightarrow> \<not> strict_neq (price t) newP \<Longrightarrow>
   updateTokenPrice e k st t = (Inr (), [PriceSource (token_id t)], st)"
  by (simp add: updateTokenPrice_def)

lemma updateTokenPrice_message_rejected:
  "getRandomPriceForToken e (token_id t) = Inr newP \<Longrightarrow> strict_neq (price t) newP \<Longrightarrow>
   createTokenPriceUpdateMessage e (token_id t) (symbol_or_unknown t) (price t) newP = Inl err \<Longrightarrow>
   updateTokenPrice e k st t
     = (Inl err, [PriceSource (token_id t), Construct (token_id t) (price t) newP], st)"
  by (simp add: updateTokenPrice_def)

lemma updateTokenPrice_publish_failed:
  "getRandomPriceForToken e (token_id t) = Inr newP \<Longrightarrow> strict_neq (price t) newP \<Longrightarrow>
   createTokenPriceUpdateMessage e (token_id t) (symbol_or_unknown t) (price t) newP = Inr m \<Longrightarrow>
   fst (sendPriceUpdateMessage e k m) = Inl err \<Longrightarrow>
   updateTokenPrice e k st t
     = (Inl err, [PriceSource (token_id t), Construct (token_id t) (price t) newP]
                 @ snd (sendPriceUpdateMessage e k m), st)"
  by (simp add: updateTokenPrice_def Let_def)

lemma updateTokenPrice_save_failed:
  "getRandomPriceForToken e (token_id t) = Inr newP \<Longrightarrow> strict_neq (price t) newP \<Longrightarrow>
   createTokenPriceUpdateMessage e (token_id t) (symbol_or_unknown t) (price t) newP = Inr m \<Longrightarrow>
   fst (sendPriceUpdateMessage e k m) = Inr u \<Longrightarrow>
   repository_save e (t\<lparr>price := newP, lastPriceUpdate := now e\<rparr>) = Some err \<Longrightarrow>
   updateTokenPrice e k st t
     = (Inl err, [PriceSource (token_id t), Construct (token_id t) (price t) newP]
                 @ snd (sendPriceUpdateMessage e k m)
                 @ [PublishDone m, Save (t\<lparr>price := newP, lastPriceUpdate := now e\<rparr>)], st)"
  by (simp add: updateTokenPrice_def Let_def)

lemma updateTokenPrice_saved:
  "getRandomPriceForToken e (token_id t) = Inr newP \<Longrightarrow> strict_neq (price t) newP \<Longrightarrow>
   createTokenPriceUpdateMessage e (token_id t) (symbol_or_unknown t) (price t) newP = Inr m \<Longrightarrow>
   fst (sendPriceUpdateMessage e k m) = Inr u \<Longrightarrow>
   repository_save e (t\<lparr>price := newP, lastPriceUpdate := now e\<rparr>) = None \<Longrightarrow>
   updateTokenPrice e k st t
     = (Inr (), [PriceSource (token_id t), Construct (token_id t) (price t) newP]
                 @ snd (sendPriceUpdateMessage e k m)
                 @ [PublishDone m, Save (t\<lparr>price := newP, lastPriceUpdate := now e\<rparr>)]
                 @ [Log LOG (''Updated price for ''
                             @ symbol_text (t\<lparr>price := newP, lastPriceUpdate := now e\<rparr>) @ '': ''
                             @ show_number e (price t) @ '' -> '' @ show_number e newP)],
        store_save (t\<lparr>price := newP, lastPriceUpdate := now e\<rparr>) st)"
  by (simp add: updateTokenPrice_def Let_def)

lemma created_message:
  "createTokenPriceUpdateMessage e i sy oldP newP = Inr m \<Longrightarrow>
   m = \<lparr>tokenId = i, msg_symbol = sy, oldPrice = oldP, newPrice = newP, msg_timestamp = now e\<rparr>"
  by (simp add: createTokenPriceUpdateMessage_def Let_def split: option.splits)

lemma sample_publish_ok:
  "\<not> b (tokenId m) 1 \<Longrightarrow>
   sendPriceUpdateMessage (sample_env b p sv) connected_producer m
     = (Inr (), [Send (tokenId m) (tokenId m) 1, Log LOG (''Sent message to Kafka: '' @ tokenId m)])"
  by (simp add: sendPriceUpdateMessage_def connected_producer_def Let_def sendWithRetry_ok)

lemma sample_publish_fails:
  assumes "\<forall>n. b (tokenId m) n"
  shows "fst (sendPriceUpdateMessage (sample_env b p sv) connected_producer m)
           = Inl (new_Error ''Failed to send message after 3 attempts: broker unavailable'')"
proof -
  let ?e = "sample_env b p sv"
  have a: "producer_send ?e (tokenId m) (stringify ?e m) 1 = Some (new_Error ''broker unavailable'')"
     "producer_send ?e (tokenId m) (stringify ?e m) 2 = Some (new_Error ''broker unavailable'')"
     "producer_send ?e (tokenId m) (stringify ?e m) 3 = Some (new_Error ''broker unavailable'')"
    using assms by simp_all
  note p1 = sendWithRetry_retry_proj(1) [OF a(1) lt_maxRetries(1) next_attempt(1)]
  note p2 = sendWithRetry_retry_proj(1) [OF a(2) lt_maxRetries(2) next_attempt(2)]
  note p3 = sendWithRetry_last_proj(1) [OF a(3) lt_maxRetries(3)]
  have "fst (sendWithRetry ?e (tokenId m) (stringify ?e m) 1)
          = Inl (new_Error ''Failed to send message after 3 attempts: broker unavailable'')"
    unfolding p1 p2 p3 by (simp add: maxRetries_def show_nat.simps digit_char_def new_Error_def)
  then show ?thesis
    by (simp add: sendPriceUpdateMessage_def connected_producer_def Let_def)
qed

lemma sample_update_ok:
  "updateTokenPrice (sample_env (\<lambda>key n. False) (\<lambda>i. Inr (Num 2)) (\<lambda>t. None)) connected_producer [tokenA] tokenA
   = (Inr (),
      [PriceSource ''A'', Construct ''A'' (Num 1) (Num 2), Send ''A'' ''A'' 1,
       Log LOG ''Sent message to Kafka: A'',
       PublishDone \<lparr>tokenId = ''A'', msg_symbol = ''AAA'', oldPrice = Num 1, newPrice = Num 2,
                     msg_timestamp = 1000\<rparr>,
       Save \<lparr>token_id = ''A'', symbol = Some ''AAA'', price = Num 2, lastPriceUpdate = 1000\<rparr>,
       Log LOG ''Updated price for AAA: # -> #''],
      [\<lparr>token_id = ''A'', symbol = Some ''AAA'', price = Num 2, lastPriceUpdate = 1000\<rparr>])"
  by (simp add: updateTokenPrice_def tokenA_def Let_def strict_neq_def
      createTokenPriceUpdateMessage_def symbol_or_unknown_def symbol_text_def
      sample_publish_ok store_save_def)


text \<open>
  C2. When \<^verbatim>\<open>updateTokenPrice\<close> invokes \<^verbatim>\<open>save\<close>, its trace is: the price source, the
  construction of the event, the whole trace of a publish that returned normally, the return
  of that publish, and only then the one \<^verbatim>\<open>save\<close>; neither the publish nor what follows
  the \<^verbatim>\<open>save\<close> contains another one. When the publish of a changed item fails, the item
  rejects with the publish error, no \<^verbatim>\<open>save\<close> is invoked and the table is unchanged.
\<close>

theorem publish_before_persist:
  "(Save t' \<in> set (fst (snd (updateTokenPrice e k st t))) \<longrightarrow>
      (\<exists>m rest.
          fst (sendPriceUpdateMessage e k m) = Inr ()
        \<and> tokenId m = token_id t' \<and> oldPrice m = price t \<and> newPrice m = price t'
        \<and> fst (snd (updateTokenPrice e k st t))
            = [PriceSource (token_id t), Construct (token_id t) (price t) (price t')]
              @ snd (sendPriceUpdateMessage e k m) @ [PublishDone m, Save t'] @ rest
        \<and> saves_of (snd (sendPriceUpdateMessage e k m)) = []
        \<and> saves_of rest = []))
   \<and> (getRandomPriceForToken e (token_id t) = Inr newP \<and> strict_neq (price t) newP
        \<and> createTokenPriceUpdateMessage e (token_id t) (symbol_or_unknown t) (price t) newP = Inr m'
        \<and> fst (sendPriceUpdateMessage e k m') = Inl err
      \<longrightarrow> fst (updateTokenPrice e k st t) = Inl err
        \<and> saves_of (fst (snd (updateTokenPrice e k st t))) = []
        \<and> snd (snd (updateTokenPrice e k st t)) = st)"
proof (intro conjI impI)
  assume sv: "Save t' \<in> set (fst (snd (updateTokenPrice e k st t)))"
  show "\<exists>m rest.
          fst (sendPriceUpdateMessage e k m) = Inr ()
        \<and> tokenId m = token_id t' \<and> oldPrice m = price t \<and> newPrice m = price t'
        \<and> fst (snd (updateTokenPrice e k st t))
            = [PriceSource (token_id t), Construct (token_id t) (price t) (price t')]
              @ snd (sendPriceUpdateMessage e k m) @ [PublishDone m, Save t'] @ rest
        \<and> saves_of (snd (sendPriceUpdateMessage e k m)) = []
        \<and> saves_of rest = []"
  proof (cases "getRandomPriceForToken e (token_id t)")
    case (Inl err)
    with sv show ?thesis by (simp add: updateTokenPrice_source_failed)
  next
    case (Inr newP)
    show ?thesis
    proof (cases "strict_neq (price t) newP")
      case False
      with sv Inr show ?thesis by (simp add: updateTokenPrice_unchanged)
    next
      case True
      show ?thesis
      proof (cases "createTokenPriceUpdateMessage e (token_id t) (symbol_or_unknown t) (price t) newP")
        case (Inl err)
        with sv show ?thesis by (simp add: updateTokenPrice_message_rejected [OF Inr True])
      next
        case m: (Inr m)
        have no_save: "Save t' \<notin> set (snd (sendPriceUpdateMessage e k m))"
          by (rule not_saved) (rule sendPriceUpdateMessage_quiet)
        show ?thesis
        proof (cases "fst (sendPriceUpdateMessage e k m)")
          case (Inl err)
          with sv no_save show ?thesis
            by (simp add: updateTokenPrice_publish_failed [OF Inr True m])
        next
          case pub: (Inr u)
          let ?t = "t\<lparr>price := newP, lastPriceUpdate := now e\<rparr>"
          show ?thesis
          proof (cases "repository_save e ?t")
            case (Some err)
            from sv no_save have "t' = ?t"
              by (simp add: updateTokenPrice_save_failed [OF Inr True m pub Some])
            with pub created_message [OF m] show ?thesis
              by (intro exI [of _ m] exI [of _ "[]"])
                 (simp add: updateTokenPrice_save_failed [OF Inr True m pub Some]
                    sendPriceUpdateMessage_quiet)
          next
            case None
            from sv no_save have "t' = ?t"
              by (simp add: updateTokenPrice_saved [OF Inr True m pub None])
            with pub created_message [OF m] show ?thesis
              by (intro exI [of _ m] exI [of _ "[Log LOG (''Updated price for ''
                             @ symbol_text ?t @ '': ''
                             @ show_number e (price t) @ '' -> '' @ show_number e newP)]"])
                 (simp add: updateTokenPrice_saved [OF Inr True m pub None]
                    sendPriceUpdateMessage_quiet)
          qed
        qed
      qed
    qed
  qed
next
  assume h: "getRandomPriceForToken e (token_id t) = Inr newP \<and> strict_neq (price t) newP
        \<and> createTokenPriceUpdateMessage e (token_id t) (symbol_or_unknown t) (price t) newP = Inr m'
        \<and> fst (sendPriceUpdateMessage e k m') = Inl err"
  then have eq: "updateTokenPrice e k st t
     = (Inl err, [PriceSource (token_id t), Construct (token_id t) (price t) newP]
                 @ snd (sendPriceUpdateMessage e k m'), st)"
    by (intro updateTokenPrice_publish_failed) simp_all
  show "fst (updateTokenPrice e k st t) = Inl err" by (simp add: eq)
  show "saves_of (fst (snd (updateTokenPrice e k st t))) = []"
    by (simp add: eq sendPriceUpdateMessage_quiet)
  show "snd (snd (updateTokenPrice e k st t)) = st" by (simp add: eq)
qed


theorem publish_before_persist_witness:
  "Save \<lparr>token_id = ''A'', symbol = Some ''AAA'', price = Num 2, lastPriceUpdate = 1000\<rparr>
     \<in> set (fst (snd (updateTokenPrice (sample_env (\<lambda>key n. False) (\<lambda>i. Inr (Num 2)) (\<lambda>t. None))
                         connected_producer [tokenA] tokenA)))
   \<and> (\<exists>m rest.
         fst (sendPriceUpdateMessage (sample_env (\<lambda>key n. False) (\<lambda>i. Inr (Num 2)) (\<lambda>t. None))
                connected_producer m) = Inr ()
       \<and> fst (snd (updateTokenPrice (sample_env (\<lambda>key n. False) (\<lambda>i. Inr (Num 2)) (\<lambda>t. None))
                      connected_producer [tokenA] tokenA))
           = [PriceSource ''A'', Construct ''A'' (Num 1) (Num 2)]
             @ snd (sendPriceUpdateMessage (sample_env (\<lambda>key n. False) (\<lambda>i. Inr (Num 2)) (\<lambda>t. None))
                      connected_producer m)
             @ [PublishDone m,
                Save \<lparr>token_id = ''A'', symbol = Some ''AAA'', price = Num 2, lastPriceUpdate = 1000\<rparr>]
             @ rest)
   \<and> getRandomPriceForToken (sample_env (\<lambda>key n. True) (\<lambda>i. Inr (Num 2)) (\<lambda>t. None)) ''A''
       = Inr (Num 2)
   \<and> strict_neq (Num 1) (Num 2)
   \<and> fst (sendPriceUpdateMessage (sample_env (\<lambda>key n. True) (\<lambda>i. Inr (Num 2)) (\<lambda>t. None)) connected_producer
            \<lparr>tokenId = ''A'', msg_symbol = ''AAA'', oldPrice = Num 1, newPrice = Num 2,
             msg_timestamp = 1000\<rparr>)
       = Inl (new_Error ''Failed to send message after 3 attempts: broker unavailable'')
   \<and> saves_of (fst (snd (updateTokenPrice (sample_env (\<lambda>key n. True) (\<lambda>i. Inr (Num 2)) (\<lambda>t. None))
                            connected_producer [tokenA] tokenA))) = []
   \<and> snd (snd (updateTokenPrice (sample_env (\<lambda>key n. True) (\<lambda>i. Inr (Num 2)) (\<lambda>t. None))
                  connected_producer [tokenA] tokenA)) = [tokenA]"
proof -
  let ?ok = "sample_env (\<lambda>key n. False) (\<lambda>i. Inr (Num 2)) (\<lambda>t. None)"
  let ?bad = "sample_env (\<lambda>key n. True) (\<lambda>i. Inr (Num 2)) (\<lambda>t. None)"
  let ?t' = "\<lparr>token_id = ''A'', symbol = Some ''AAA'', price = Num 2, lastPriceUpdate = 1000\<rparr>"
  let ?m = "\<lparr>tokenId = ''A'', msg_symbol = ''AAA'', oldPrice = Num 1, newPrice = Num 2,
             msg_timestamp = 1000\<rparr>"
  have h1: "Save ?t' \<in> set (fst (snd (updateTokenPrice ?ok connected_producer [tokenA] tokenA)))"
    by (simp add: sample_update_ok)
  have h2: "getRandomPriceForToken ?bad (token_id tokenA) = Inr (Num 2)
        \<and> strict_neq (price tokenA) (Num 2)
        \<and> createTokenPriceUpdateMessage ?bad (token_id tokenA) (symbol_or_unknown tokenA)
             (price tokenA) (Num 2) = Inr ?m
        \<and> fst (sendPriceUpdateMessage ?bad connected_producer ?m)
             = Inl (new_Error ''Failed to send message after 3 attempts: broker unavailable'')"
    by (simp add: tokenA_def strict_neq_def createTokenPriceUpdateMessage_def
          symbol_or_unknown_def sample_publish_fails)
  have c1: "\<exists>m rest.
         fst (sendPriceUpdateMessage ?ok connected_producer m) = Inr ()
       \<and> fst (snd (updateTokenPrice ?ok connected_producer [tokenA] tokenA))
           = [PriceSource ''A'', Construct ''A'' (Num 1) (Num 2)]
             @ snd (sendPriceUpdateMessage ?ok connected_producer m) @ [PublishDone m, Save ?t'] @ rest"
    using h1 publish_before_persist [where t' = ?t' and e = ?ok and k = connected_producer
                                       and st = "[tokenA]" and t = tokenA]
    by (simp add: tokenA_def) blast
  have c2: "saves_of (fst (snd (updateTokenPrice ?bad connected_producer [tokenA] tokenA))) = []
          \<and> snd (snd (updateTokenPrice ?bad connected_producer [tokenA] tokenA)) = [tokenA]"
    using h2 publish_before_persist [where e = ?bad and k = connected_producer and st = "[tokenA]"
        and t = tokenA and newP = "Num 2" and m' = ?m
        and err = "new_Error ''Failed to send message after 3 attempts: broker unavailable''"]
    by blast
  from h1 h2 c1 c2 show ?thesis
    by (simp add: tokenA_def)
qed

text \<open>
  C3. When the new price is not \<^verbatim>\<open>!==\<close> the stored one (for plain numbers: when they are
  equal), the item resolves with the price source as its only effect: no event is
  constructed, nothing is sent and nothing is saved, and the table is unchanged. Every event
  that is constructed has an old price, the stored one, that is \<^verbatim>\<open>!==\<close> its new price.
\<close>

theorem noop_suppression:
  "(getRandomPriceForToken e (token_id t) = Inr newP \<and> \<not> strict_neq (price t) newP
      \<longrightarrow> updateTokenPrice e k st t = (Inr (), [PriceSource (token_id t)], st))
   \<and> (\<forall>a b. (a, b) \<in> set (constructs_of (fst (snd (updateTokenPrice e k st t))))
        \<longrightarrow> strict_neq a b \<and> a = price t \<and> getRandomPriceForToken e (token_id t) = Inr b)
   \<and> (\<forall>p q. strict_neq (Num p) (Num q) = (p \<noteq> q))"
proof (intro conjI impI allI)
  assume "getRandomPriceForToken e (token_id t) = Inr newP \<and> \<not> strict_neq (price t) newP"
  then show "updateTokenPrice e k st t = (Inr (), [PriceSource (token_id t)], st)"
    by (simp add: updateTokenPrice_unchanged)
next
  fix a b
  assume c: "(a, b) \<in> set (constructs_of (fst (snd (updateTokenPrice e k st t))))"
  show "strict_neq a b" "a = price t" "getRandomPriceForToken e (token_id t) = Inr b"
    using c unfolding constructs_of_updateTokenPrice
    by (auto split: sum.splits if_splits)
next
  fix p q show "strict_neq (Num p) (Num q) = (p \<noteq> q)" by (simp add: strict_neq_def)
qed

theorem noop_suppression_witness:
  "getRandomPriceForToken (sample_env (\<lambda>key n. False) (\<lambda>i. Inr (Num 1)) (\<lambda>t. None)) ''A''
     = Inr (Num 1)
   \<and> \<not> strict_neq (Num 1) (Num 1)
   \<and> updateTokenPrice (sample_env (\<lambda>key n. False) (\<lambda>i. Inr (Num 1)) (\<lambda>t. None)) connected_producer
        [tokenA] tokenA = (Inr (), [PriceSource ''A''], [tokenA])
   \<and> (Num 1, Num 2)
       \<in> set (constructs_of (fst (snd (updateTokenPrice
                 (sample_env (\<lambda>key n. False) (\<lambda>i. Inr (Num 2)) (\<lambda>t. None)) connected_producer
                 [tokenA] tokenA))))
   \<and> strict_neq (Num 1) (Num 2)"
proof -
  let ?same = "sample_env (\<lambda>key n. False) (\<lambda>i. Inr (Num 1)) (\<lambda>t. None)"
  let ?ok = "sample_env (\<lambda>key n. False) (\<lambda>i. Inr (Num 2)) (\<lambda>t. None)"
  have h1: "getRandomPriceForToken ?same (token_id tokenA) = Inr (Num 1)
            \<and> \<not> strict_neq (price tokenA) (Num 1)"
    by (simp add: tokenA_def strict_neq_def)
  have h2: "(Num 1, Num 2)
       \<in> set (constructs_of (fst (snd (updateTokenPrice ?ok connected_producer [tokenA] tokenA))))"
    by (simp add: sample_update_ok)
  have c1: "updateTokenPrice ?same connected_producer [tokenA] tokenA
              = (Inr (), [PriceSource (token_id tokenA)], [tokenA])"
    using h1 noop_suppression [where e = ?same and t = tokenA and newP = "Num 1"
                                 and k = connected_producer and st = "[tokenA]"]
    by blast
  have c2: "strict_neq (Num 1) (Num 2)"
    using h2 noop_suppression [where e = ?ok and t = tokenA and k = connected_producer and st = "[tokenA]"]
    by blast
  from h1 h2 c1 c2 show ?thesis
    by (simp add: tokenA_def)
qed


section \<open>One tick: all items settle\<close>

lemma lines_at_append: "lines_at l (xs @ ys) = lines_at l xs @ lines_at l ys"
  by (induction xs rule: lines_at.induct) auto

lemma store_save_same_id:
  "token_id r = token_id t \<Longrightarrow> store_save r [t] = [r]"
  by (simp add: store_save_def)

lemma updateTokenPrice_uniform:
  "\<exists>res tr sv r. token_id r = token_id t
      \<and> (\<forall>st. updateTokenPrice e k st t = (res, tr, if sv then store_save r st else st))"
proof (cases "getRandomPriceForToken e (token_id t)")
  case (Inl err)
  show ?thesis
    by (rule exI [of _ "Inl err"], rule exI [of _ "[PriceSource (token_id t)]"],
        rule exI [of _ False], rule exI [of _ t])
       (simp add: updateTokenPrice_source_failed [OF Inl])
next
  case (Inr newP)
  show ?thesis
  proof (cases "strict_neq (price t) newP")
    case False
    show ?thesis
      by (rule exI [of _ "Inr ()"], rule exI [of _ "[PriceSource (token_id t)]"],
          rule exI [of _ False], rule exI [of _ t])
         (simp add: updateTokenPrice_unchanged [OF Inr False])
  next
    case True
    show ?thesis
    proof (cases "createTokenPriceUpdateMessage e (token_id t) (symbol_or_unknown t) (price t) newP")
      case (Inl err)
      show ?thesis
        by (rule exI [of _ "Inl err"],
            rule exI [of _ "[PriceSource (token_id t), Construct (token_id t) (price t) newP]"],
            rule exI [of _ False], rule exI [of _ t])
           (simp add: updateTokenPrice_message_rejected [OF Inr True Inl])
    next
      case m: (Inr m)
      show ?thesis
      proof (cases "fst (sendPriceUpdateMessage e k m)")
        case (Inl err)
        show ?thesis
          by (rule exI [of _ "Inl err"],
              rule exI [of _ "[PriceSource (token_id t), Construct (token_id t) (price t) newP]
                 @ snd (sendPriceUpdateMessage e k m)"],
              rule exI [of _ False], rule exI [of _ t])
             (simp add: updateTokenPrice_publish_failed [OF Inr True m Inl])
      next
        case pub: (Inr u)
        let ?t = "t\<lparr>price := newP, lastPriceUpdate := now e\<rparr>"
        show ?thesis
        proof (cases "repository_save e ?t")
          case (Some err)
          show ?thesis
            by (rule exI [of _ "Inl err"],
                rule exI [of _ "[PriceSource (token_id t), Construct (token_id t) (price t) newP]
                   @ snd (sendPriceUpdateMessage e k m) @ [PublishDone m, Save ?t]"],
                rule exI [of _ False], rule exI [of _ t])
               (simp add: updateTokenPrice_save_failed [OF Inr True m pub Some])
        next
          case None
          show ?thesis
            by (rule exI [of _ "Inr ()"],
                rule exI [of _ "[PriceSource (token_id t), Construct (token_id t) (price t) newP]
                   @ snd (sendPriceUpdateMessage e k m) @ [PublishDone m, Save ?t]
                   @ [Log LOG (''Updated price for '' @ symbol_text ?t @ '': ''
                             @ show_number e (price t) @ '' -> '' @ show_number e newP)]"],
                rule exI [of _ True], rule exI [of _ ?t])
               (simp add: updateTokenPrice_saved [OF Inr True m pub None])
        qed
      qed
    qed
  qed
qed

lemma updateTokenPrice_any_table:
  "fst (updateTokenPrice e k st t) = fst (updateTokenPrice e k [t] t)"
  "fst (snd (updateTokenPrice e k st t)) = fst (snd (updateTokenPrice e k [t] t))"
  using updateTokenPrice_uniform [of t e k] by auto

lemma token_id_row_after: "token_id (row_after e k t) = token_id t"
proof -
  obtain res tr sv r where r: "token_id r = token_id t"
    and u: "\<And>st. updateTokenPrice e k st t = (res, tr, if sv then store_save r st else st)"
    using updateTokenPrice_uniform [of t e k] by blast
  show ?thesis
    using r by (cases sv) (simp_all add: row_after_def u store_save_same_id)
qed

lemma same_id_same_row:
  "distinct (map token_id st) \<Longrightarrow> u \<in> set st \<Longrightarrow> t \<in> set st \<Longrightarrow> token_id u = token_id t
   \<Longrightarrow> u = t"
  by (meson distinct_map inj_onD)

lemma rewrite_own_row:
  assumes "distinct (map token_id st)" and "t \<in> set st"
  shows "map (\<lambda>u. if token_id u = token_id t then t else u) st = st"
proof -
  have "\<And>u. u \<in> set st \<Longrightarrow> (if token_id u = token_id t then t else u) = u"
    using same_id_same_row [OF assms(1) _ assms(2)] by auto
  then show ?thesis by (simp add: map_idI)
qed

lemma updateTokenPrice_table:
  assumes "distinct (map token_id st)" and "t \<in> set st"
  shows "snd (snd (updateTokenPrice e k st t))
           = map (\<lambda>u. if token_id u = token_id t then row_after e k t else u) st"
proof -
  obtain res tr sv r where r: "token_id r = token_id t"
    and u: "\<And>st. updateTokenPrice e k st t = (res, tr, if sv then store_save r st else st)"
    using updateTokenPrice_uniform [of t e k] by blast
  show ?thesis
  proof (cases sv)
    case True
    have "row_after e k t = r"
      using True r by (simp add: row_after_def u store_save_same_id)
    moreover have "token_id t \<in> set (map token_id st)" using assms(2) by simp
    ultimately show ?thesis using True r by (simp add: u store_save_def)
  next
    case False
    have same: "row_after e k t = t" using False by (simp add: row_after_def u)
    have "map (\<lambda>u. if token_id u = token_id t then row_after e k t else u) st = st"
      unfolding same by (rule rewrite_own_row [OF assms])
    then show ?thesis using False by (simp add: u)
  qed
qed

lemma allSettled_results:
  "fst (allSettled e k ts st) = map (\<lambda>t. fst (updateTokenPrice e k [t] t)) ts"
proof (induction ts arbitrary: st)
  case Nil
  show ?case by simp
next
  case (Cons t ts)
  show ?case
    using updateTokenPrice_any_table(1) [of e k st t] by (simp add: Let_def Cons)
qed

lemma allSettled_trace:
  "fst (snd (allSettled e k ts st)) = map (\<lambda>t. fst (snd (updateTokenPrice e k [t] t))) ts"
proof (induction ts arbitrary: st)
  case Nil
  show ?case by simp
next
  case (Cons t ts)
  show ?case
    using updateTokenPrice_any_table(2) [of e k st t] by (simp add: Let_def Cons)
qed

lemma allSettled_table:
  "distinct (map token_id st) \<Longrightarrow> set ts \<subseteq> set st \<Longrightarrow> distinct (map token_id ts) \<Longrightarrow>
   snd (snd (allSettled e k ts st))
     = map (\<lambda>u. if token_id u \<in> token_id ` set ts then row_after e k u else u) st"
proof (induction ts arbitrary: st)
  case Nil
  show ?case by simp
next
  case (Cons t ts)
  let ?f = "\<lambda>u. if token_id u = token_id t then row_after e k t else u"
  let ?st1 = "map ?f st"
  have t_in: "t \<in> set st" using Cons.prems(2) by simp
  have step: "snd (snd (updateTokenPrice e k st t)) = ?st1"
    by (rule updateTokenPrice_table [OF Cons.prems(1) t_in])
  have "\<And>u. token_id (?f u) = token_id u"
    by (simp add: token_id_row_after)
  then have ids: "map token_id ?st1 = map token_id st"
    by (simp add: comp_def)
  have d1: "distinct (map token_id ?st1)" unfolding ids by (rule Cons.prems(1))
  have fresh: "token_id t \<notin> token_id ` set ts" using Cons.prems(3) by simp
  have sub: "set ts \<subseteq> set ?st1"
  proof
    fix u assume u: "u \<in> set ts"
    then have "u \<in> set st" using Cons.prems(2) by auto
    moreover have "token_id u \<noteq> token_id t" using u fresh by (metis imageI)
    ultimately show "u \<in> set ?st1" by force
  qed
  have d2: "distinct (map token_id ts)" using Cons.prems(3) by simp
  have "snd (snd (allSettled e k (t # ts) st)) = snd (snd (allSettled e k ts ?st1))"
    by (simp add: Let_def step)
  also have "\<dots> = map (\<lambda>u. if token_id u \<in> token_id ` set ts then row_after e k u else u) ?st1"
    by (rule Cons.IH [OF d1 sub d2])
  also have "\<dots> = map (\<lambda>u. if token_id u \<in> token_id ` set (t # ts) then row_after e k u else u) st"
  proof -
    have "\<And>u. u \<in> set st \<Longrightarrow>
            (if token_id (?f u) \<in> token_id ` set ts then row_after e k (?f u) else ?f u)
          = (if token_id u \<in> token_id ` set (t # ts) then row_after e k u else u)"
    proof -
      fix u assume u: "u \<in> set st"
      show "(if token_id (?f u) \<in> token_id ` set ts then row_after e k (?f u) else ?f u)
          = (if token_id u \<in> token_id ` set (t # ts) then row_after e k u else u)"
      proof (cases "token_id u = token_id t")
        case True
        then have "u = t" using same_id_same_row [OF Cons.prems(1) u t_in] by simp
        then show ?thesis using fresh by (simp add: token_id_row_after)
      next
        case False
        then show ?thesis by simp
      qed
    qed
    then show ?thesis by (simp add: comp_def)
  qed
  finally show ?case .
qed

lemma sendWithRetry_logs:
  "lines_at WARN (snd (sendWithRetry e key val n)) = []
   \<and> (\<forall>txt. Log LOG txt \<in> set (snd (sendWithRetry e key val n)) \<longrightarrow> take 9 txt = ''Retrying '')"
proof (induction e key val n rule: sendWithRetry.induct)
  case (1 e key val attempt)
  show ?case
  proof (cases "producer_send e key val attempt")
    case None
    then show ?thesis by (simp add: sendWithRetry_ok)
  next
    case (Some err)
    show ?thesis
    proof (cases "attempt < maxRetries")
      case True
      with 1 [OF Some refl refl True refl refl] show ?thesis
        by (auto simp: sendWithRetry_retry [OF Some True refl] lines_at_append)
    next
      case False
      then show ?thesis by (simp add: sendWithRetry_last [OF Some False])
    qed
  qed
qed

lemma sendPriceUpdateMessage_no_warn:
  "lines_at WARN (snd (sendPriceUpdateMessage e k m)) = []"
  using sendPriceUpdateMessage_trace [of e k m] sendWithRetry_logs [of e "tokenId m" "stringify e m" 1]
  by (auto simp: lines_at_append)

lemma sendPriceUpdateMessage_failed_trace:
  assumes "fst (sendPriceUpdateMessage e k m) = Inl err"
  shows "snd (sendPriceUpdateMessage e k m) = []
       \<or> snd (sendPriceUpdateMessage e k m) = snd (sendWithRetry e (tokenId m) (stringify e m) 1)"
proof (cases "isConnected k")
  case False
  then show ?thesis by (simp add: sendPriceUpdateMessage_def)
next
  case True
  show ?thesis
  proof (cases "schema_parse e m")
    case (Some zerr)
    with True show ?thesis by (simp add: sendPriceUpdateMessage_def)
  next
    case None
    show ?thesis
    proof (cases "fst (sendWithRetry e (tokenId m) (stringify e m) 1)")
      case (Inl err)
      with True None show ?thesis by (simp add: sendPriceUpdateMessage_def Let_def)
    next
      case (Inr u)
      with True None assms show ?thesis by (simp add: sendPriceUpdateMessage_def Let_def)
    qed
  qed
qed

lemma sendPriceUpdateMessage_done_trace:
  assumes "fst (sendPriceUpdateMessage e k m) = Inr u"
  shows "snd (sendPriceUpdateMessage e k m)
           = snd (sendWithRetry e (tokenId m) (stringify e m) 1)
             @ [Log LOG (''Sent message to Kafka: '' @ stringify e m)]"
proof (cases "isConnected k")
  case False
  with assms show ?thesis by (simp add: sendPriceUpdateMessage_def)
next
  case True
  show ?thesis
  proof (cases "schema_parse e m")
    case (Some zerr)
    with True assms show ?thesis by (simp add: sendPriceUpdateMessage_def)
  next
    case None
    show ?thesis
    proof (cases "fst (sendWithRetry e (tokenId m) (stringify e m) 1)")
      case (Inl err)
      with True None assms show ?thesis by (simp add: sendPriceUpdateMessage_def Let_def)
    next
      case (Inr u)
      with True None show ?thesis by (simp add: sendPriceUpdateMessage_def Let_def)
    qed
  qed
qed

lemma failed_publish_has_no_sent_line:
  assumes "fst (sendPriceUpdateMessage e k m) = Inl err"
  shows "Log LOG (''Sent message to Kafka: '' @ x) \<notin> set (snd (sendPriceUpdateMessage e k m))"
proof
  assume a: "Log LOG (''Sent message to Kafka: '' @ x) \<in> set (snd (sendPriceUpdateMessage e k m))"
  from sendPriceUpdateMessage_failed_trace [OF assms] a
  have "Log LOG (''Sent message to Kafka: '' @ x)
          \<in> set (snd (sendWithRetry e (tokenId m) (stringify e m) 1))"
    by auto
  then have "take 9 (''Sent message to Kafka: '' @ x) = ''Retrying ''"
    using sendWithRetry_logs [of e "tokenId m" "stringify e m" 1] by blast
  then show False by simp
qed

lemma updateTokenPrice_cases:
  obtains
    (source_failed) err where "getRandomPriceForToken e (token_id t) = Inl err"
  | (unchanged) newP where "getRandomPriceForToken e (token_id t) = Inr newP"
      and "\<not> strict_neq (price t) newP"
  | (message_rejected) newP err where "getRandomPriceForToken e (token_id t) = Inr newP"
      and "strict_neq (price t) newP"
      and "createTokenPriceUpdateMessage e (token_id t) (symbol_or_unknown t) (price t) newP = Inl err"
  | (publish_failed) newP m err where "getRandomPriceForToken e (token_id t) = Inr newP"
      and "strict_neq (price t) newP"
      and "createTokenPriceUpdateMessage e (token_id t) (symbol_or_unknown t) (price t) newP = Inr m"
      and "fst (sendPriceUpdateMessage e k m) = Inl err"
  | (save_failed) newP m err where "getRandomPriceForToken e (token_id t) = Inr newP"
      and "strict_neq (price t) newP"
      and "createTokenPriceUpdateMessage e (token_id t) (symbol_or_unknown t) (price t) newP = Inr m"
      and "fst (sendPriceUpdateMessage e k m) = Inr ()"
      and "repository_save e (t\<lparr>price := newP, lastPriceUpdate := now e\<rparr>) = Some err"
  | (saved) newP m where "getRandomPriceForToken e (token_id t) = Inr newP"
      and "strict_neq (price t) newP"
      and "createTokenPriceUpdateMessage e (token_id t) (symbol_or_unknown t) (price t) newP = Inr m"
      and "fst (sendPriceUpdateMessage e k m) = Inr ()"
      and "repository_save e (t\<lparr>price := newP, lastPriceUpdate := now e\<rparr>) = None"
proof (cases "getRandomPriceForToken e (token_id t)")
  case (Inl err)
  then show ?thesis by (rule source_failed)
next
  case (Inr newP)
  show ?thesis
  proof (cases "strict_neq (price t) newP")
    case False
    with Inr show ?thesis by (rule unchanged)
  next
    case True
    show ?thesis
    proof (cases "createTokenPriceUpdateMessage e (token_id t) (symbol_or_unknown t) (price t) newP")
      case (Inl err)
      with Inr True show ?thesis by (rule message_rejected)
    next
      case m: (Inr m)
      show ?thesis
      proof (cases "fst (sendPriceUpdateMessage e k m)")
        case (Inl err)
        with Inr True m show ?thesis by (rule publish_failed)
      next
        case pub: (Inr u)
        then have pub': "fst (sendPriceUpdateMessage e k m) = Inr ()" by simp
        show ?thesis
        proof (cases "repository_save e (t\<lparr>price := newP, lastPriceUpdate := now e\<rparr>)")
          case (Some err)
          with Inr True m pub' show ?thesis by (rule save_failed)
        next
          case None
          with Inr True m pub' show ?thesis by (rule saved)
        qed
      qed
    qed
  qed
qed

lemma updateTokenPrice_no_warn:
  "lines_at WARN (fst (snd (updateTokenPrice e k st t))) = []"
proof (cases rule: updateTokenPrice_cases [where e = e and t = t and k = k])
  case (source_failed err)
  then show ?thesis by (simp add: updateTokenPrice_source_failed)
next
  case (unchanged newP)
  then show ?thesis by (simp add: updateTokenPrice_unchanged)
next
  case (message_rejected newP err)
  then show ?thesis by (simp add: updateTokenPrice_message_rejected)
next
  case (publish_failed newP m err)
  then show ?thesis
    by (simp add: updateTokenPrice_publish_failed lines_at_append sendPriceUpdateMessage_no_warn)
next
  case (save_failed newP m err)
  then show ?thesis
    by (simp add: updateTokenPrice_save_failed lines_at_append sendPriceUpdateMessage_no_warn)
next
  case (saved newP m)
  then show ?thesis
    by (simp add: updateTokenPrice_saved lines_at_append sendPriceUpdateMessage_no_warn)
qed

lemma row_after_failed:
  assumes "fst (updateTokenPrice e k [t] t) = Inl err"
  shows "row_after e k t = t"
proof (cases rule: updateTokenPrice_cases [where e = e and t = t and k = k])
  case (source_failed err)
  then show ?thesis by (simp add: row_after_def updateTokenPrice_source_failed)
next
  case (unchanged newP)
  then show ?thesis by (simp add: row_after_def updateTokenPrice_unchanged)
next
  case (message_rejected newP err)
  then show ?thesis by (simp add: row_after_def updateTokenPrice_message_rejected)
next
  case (publish_failed newP m err)
  then show ?thesis by (simp add: row_after_def updateTokenPrice_publish_failed)
next
  case (save_failed newP m err)
  then show ?thesis by (simp add: row_after_def updateTokenPrice_save_failed)
next
  case (saved newP m)
  with assms show ?thesis by (simp add: updateTokenPrice_saved)
qed

lemma row_after_done:
  assumes "fst (updateTokenPrice e k [t] t) = Inr u"
      and "getRandomPriceForToken e (token_id t) = Inr p"
  shows "price (row_after e k t) = p"
proof (cases rule: updateTokenPrice_cases [where e = e and t = t and k = k])
  case (source_failed err)
  with assms show ?thesis by simp
next
  case (unchanged newP)
  with assms(2) show ?thesis
    by (simp add: row_after_def updateTokenPrice_unchanged strict_neq_def)
next
  case (message_rejected newP err)
  with assms show ?thesis by (simp add: updateTokenPrice_message_rejected)
next
  case (publish_failed newP m err)
  with assms show ?thesis by (simp add: updateTokenPrice_publish_failed)
next
  case (save_failed newP m err)
  with assms show ?thesis by (simp add: updateTokenPrice_save_failed)
next
  case (saved newP m)
  with assms(2) show ?thesis
    by (simp add: row_after_def updateTokenPrice_saved store_save_def)
qed

lemma lines_at_empty_iff: "lines_at l tr = [] \<longleftrightarrow> (\<forall>txt. Log l txt \<notin> set tr)"
  by (induction tr rule: lines_at.induct) auto

lemma concat_take_effect:
  "i < length trs \<Longrightarrow> trs ! i = x # rest \<Longrightarrow>
   set (concat trs) = insert x (set (concat (trs[i := rest])))"
proof (induction trs arbitrary: i)
  case Nil
  then show ?case by simp
next
  case (Cons tr trs)
  show ?case
  proof (cases i)
    case 0
    with Cons.prems show ?thesis by auto
  next
    case (Suc j)
    with Cons.prems have "set (concat trs) = insert x (set (concat (trs[j := rest])))"
      by (intro Cons.IH) simp_all
    with Suc show ?thesis by auto
  qed
qed

lemma set_interleave: "set (interleave sch trs) = set (concat trs)"
proof (induction sch arbitrary: trs)
  case Nil
  show ?case by simp
next
  case (Cons i sch)
  show ?case
  proof (cases "i < length trs")
    case False
    then show ?thesis by (simp add: Cons.IH)
  next
    case True
    show ?thesis
    proof (cases "trs ! i")
      case Nil
      with True show ?thesis by (simp add: Cons.IH)
    next
      case c: (Cons x rest)
      have "set (interleave (i # sch) trs) = insert x (set (concat (trs[i := rest])))"
        using True c by (simp add: Cons.IH)
      also have "\<dots> = set (concat trs)"
        using concat_take_effect [OF True c] by simp
      finally show ?thesis .
    qed
  qed
qed

lemma lines_at_interleave_none:
  assumes "\<And>tr. tr \<in> set trs \<Longrightarrow> lines_at l tr = []"
  shows "lines_at l (interleave sch trs) = []"
  using assms by (auto simp: lines_at_empty_iff set_interleave)

lemma lines_at_other_level:
  "l \<noteq> l' \<Longrightarrow> lines_at l (map (\<lambda>x. Log l' (f x)) xs) = []"
  by (induction xs) simp_all

lemma rejected_filter: "rejected rs = map projl (filter isl rs)"
  by (induction rs rule: rejected.induct) simp_all

lemma updatePrices_try_loaded:
  assumes "repository_find e = None"
  shows "updatePrices_try e k sch st
     = (Inr (map (\<lambda>t. fst (updateTokenPrice e k [t] t)) st),
        Log LOG (''Updating prices for '' @ show_nat (length st) @ '' tokens...'')
        # interleave sch (map (\<lambda>t. fst (snd (updateTokenPrice e k [t] t))) st)
        @ (if filter isl (map (\<lambda>t. fst (updateTokenPrice e k [t] t)) st) = [] then []
           else Log WARN (show_nat (length (filter isl
                                       (map (\<lambda>t. fst (updateTokenPrice e k [t] t)) st)))
                          @ '' token(s) failed to update'')
                # map (\<lambda>r. Log ERROR (''Failed to update token: '' @ error_toString (projl r)))
                      (filter isl (map (\<lambda>t. fst (updateTokenPrice e k [t] t)) st))),
        snd (snd (allSettled e k st st)))"
  using assms
  by (simp add: updatePrices_try_def Let_def allSettled_results allSettled_trace rejected_filter
        comp_def)

lemma sample_message:
  "createTokenPriceUpdateMessage (sample_env b p sv) i sy oldP newP
     = Inr \<lparr>tokenId = i, msg_symbol = sy, oldPrice = oldP, newPrice = newP, msg_timestamp = 1000\<rparr>"
  by (simp add: createTokenPriceUpdateMessage_def)

lemma sample_item_saved:
  assumes "\<not> b (token_id t) 1" and "p (token_id t) = Inr newP" and "strict_neq (price t) newP"
  shows "fst (updateTokenPrice (sample_env b p (\<lambda>t. None)) connected_producer st t) = Inr ()"
proof -
  let ?e = "sample_env b p (\<lambda>t. None)"
  let ?m = "\<lparr>tokenId = token_id t, msg_symbol = symbol_or_unknown t, oldPrice = price t,
             newPrice = newP, msg_timestamp = 1000\<rparr>"
  have g: "getRandomPriceForToken ?e (token_id t) = Inr newP" using assms(2) by simp
  have c: "createTokenPriceUpdateMessage ?e (token_id t) (symbol_or_unknown t) (price t) newP = Inr ?m"
    by (rule sample_message)
  have pb: "fst (sendPriceUpdateMessage ?e connected_producer ?m) = Inr ()"
    using assms(1) by (simp add: sample_publish_ok)
  have sv: "repository_save ?e (t\<lparr>price := newP, lastPriceUpdate := now ?e\<rparr>) = None" by simp
  show ?thesis
    unfolding updateTokenPrice_saved [OF g assms(3) c pb sv] by simp
qed

lemma sample_item_publish_failed:
  assumes "\<forall>n. b (token_id t) n" and "p (token_id t) = Inr newP" and "strict_neq (price t) newP"
  shows "fst (updateTokenPrice (sample_env b p sv) connected_producer st t)
           = Inl (new_Error ''Failed to send message after 3 attempts: broker unavailable'')"
proof -
  let ?e = "sample_env b p sv"
  let ?m = "\<lparr>tokenId = token_id t, msg_symbol = symbol_or_unknown t, oldPrice = price t,
             newPrice = newP, msg_timestamp = 1000\<rparr>"
  have g: "getRandomPriceForToken ?e (token_id t) = Inr newP" using assms(2) by simp
  have c: "createTokenPriceUpdateMessage ?e (token_id t) (symbol_or_unknown t) (price t) newP = Inr ?m"
    by (rule sample_message)
  have pb: "fst (sendPriceUpdateMessage ?e connected_producer ?m)
              = Inl (new_Error ''Failed to send message after 3 attempts: broker unavailable'')"
    using assms(1) by (intro sample_publish_fails) simp
  show ?thesis
    unfolding updateTokenPrice_publish_failed [OF g assms(3) c pb] by simp
qed

lemma show_nat_1: "show_nat 1 = ''1''" "show_nat (Suc 0) = ''1''"
  by (simp_all add: show_nat.simps digit_char_def)

lemma sample_item_save_failed:
  assumes "\<not> b (token_id t) 1" and "p (token_id t) = Inr newP" and "strict_neq (price t) newP"
      and "sv (t\<lparr>price := newP, lastPriceUpdate := 1000\<rparr>) = Some err"
  shows "updateTokenPrice (sample_env b p sv) connected_producer st t
           = (Inl err,
              [PriceSource (token_id t), Construct (token_id t) (price t) newP,
               Send (token_id t) (token_id t) 1,
               Log LOG (''Sent message to Kafka: '' @ token_id t),
               PublishDone \<lparr>tokenId = token_id t, msg_symbol = symbol_or_unknown t,
                            oldPrice = price t, newPrice = newP, msg_timestamp = 1000\<rparr>,
               Save (t\<lparr>price := newP, lastPriceUpdate := 1000\<rparr>)],
              st)"
proof -
  let ?e = "sample_env b p sv"
  let ?m = "\<lparr>tokenId = token_id t, msg_symbol = symbol_or_unknown t, oldPrice = price t,
             newPrice = newP, msg_timestamp = 1000\<rparr>"
  have g: "getRandomPriceForToken ?e (token_id t) = Inr newP" using assms(2) by simp
  have c: "createTokenPriceUpdateMessage ?e (token_id t) (symbol_or_unknown t) (price t) newP = Inr ?m"
    by (rule sample_message)
  have pb: "sendPriceUpdateMessage ?e connected_producer ?m
              = (Inr (), [Send (token_id t) (token_id t) 1,
                          Log LOG (''Sent message to Kafka: '' @ token_id t)])"
    using assms(1) sample_publish_ok [of b ?m p sv] by simp
  then have pb1: "fst (sendPriceUpdateMessage ?e connected_producer ?m) = Inr ()" by simp
  have sv: "repository_save ?e (t\<lparr>price := newP, lastPriceUpdate := now ?e\<rparr>) = Some err"
    using assms(4) by simp
  show ?thesis
    unfolding updateTokenPrice_save_failed [OF g assms(3) c pb1 sv] pb by simp
qed

lemma source_down_item:
  "updateTokenPrice env_source_down connected_producer [tokenA] tokenA
     = (Inl (new_Error ''timeout''), [PriceSource ''A''], [tokenA])"
  by (simp add: env_source_down_def updateTokenPrice_source_failed tokenA_def)

lemma store_down_item:
  "updateTokenPrice env_store_down connected_producer [tokenA] tokenA
     = (Inl (new_Error ''timeout''),
        [PriceSource ''A'', Construct ''A'' (Num 1) (Num 2), Send ''A'' ''A'' 1,
         Log LOG ''Sent message to Kafka: A'',
         PublishDone \<lparr>tokenId = ''A'', msg_symbol = ''AAA'', oldPrice = Num 1, newPrice = Num 2,
                      msg_timestamp = 1000\<rparr>,
         Save \<lparr>token_id = ''A'', symbol = Some ''AAA'', price = Num 2, lastPriceUpdate = 1000\<rparr>],
        [tokenA])"
  unfolding env_store_down_def
  by (subst sample_item_save_failed [where newP = "Num 2" and err = "new_Error ''timeout''"])
     (simp_all add: tokenA_def strict_neq_def symbol_or_unknown_def)

lemma error_toString_new_Error: "msg \<noteq> [] \<Longrightarrow> error_toString (new_Error msg) = ''Error: '' @ msg"
  by (simp add: error_toString_def new_Error_def)


lemma sample_item_resolved:
  assumes "\<not> b (token_id t) 1" and "p (token_id t) = Inr newP" and "strict_neq (price t) newP"
      and "sv (t\<lparr>price := newP, lastPriceUpdate := 1000\<rparr>) = None"
  shows "fst (updateTokenPrice (sample_env b p sv) connected_producer st t) = Inr ()"
proof -
  let ?e = "sample_env b p sv"
  let ?m = "\<lparr>tokenId = token_id t, msg_symbol = symbol_or_unknown t, oldPrice = price t,
             newPrice = newP, msg_timestamp = 1000\<rparr>"
  have g: "getRandomPriceForToken ?e (token_id t) = Inr newP" using assms(2) by simp
  have c: "createTokenPriceUpdateMessage ?e (token_id t) (symbol_or_unknown t) (price t) newP = Inr ?m"
    by (rule sample_message)
  have pb: "fst (sendPriceUpdateMessage ?e connected_producer ?m) = Inr ()"
    using assms(1) by (simp add: sample_publish_ok)
  have sv: "repository_save ?e (t\<lparr>price := newP, lastPriceUpdate := now ?e\<rparr>) = None"
    using assms(4) by simp
  show ?thesis
    unfolding updateTokenPrice_saved [OF g assms(3) c pb sv] by simp
qed

lemma show_nat_2: "show_nat 2 = ''2''" "show_nat (Suc (Suc 0)) = ''2''"
  by (simp_all add: show_nat.simps digit_char_def)


lemma logs_of_append: "logs_of (xs @ ys) = logs_of xs @ logs_of ys"
  by (induction xs rule: logs_of.induct) auto

lemma sample_item_resolved_trace:
  assumes "\<not> b (token_id t) 1" and "p (token_id t) = Inr newP" and "strict_neq (price t) newP"
      and "sv (t\<lparr>price := newP, lastPriceUpdate := 1000\<rparr>) = None"
  shows "fst (snd (updateTokenPrice (sample_env b p sv) connected_producer st t))
           = [PriceSource (token_id t), Construct (token_id t) (price t) newP,
              Send (token_id t) (token_id t) 1,
              Log LOG (''Sent message to Kafka: '' @ token_id t),
              PublishDone \<lparr>tokenId = token_id t, msg_symbol = symbol_or_unknown t,
                           oldPrice = price t, newPrice = newP, msg_timestamp = 1000\<rparr>,
              Save (t\<lparr>price := newP, lastPriceUpdate := 1000\<rparr>),
              Log LOG (''Updated price for ''
                       @ symbol_text (t\<lparr>price := newP, lastPriceUpdate := 1000\<rparr>) @ '': ''
                       @ show_number (sample_env b p sv) (price t) @ '' -> ''
                       @ show_number (sample_env b p sv) newP)]"
proof -
  let ?e = "sample_env b p sv"
  let ?m = "\<lparr>tokenId = token_id t, msg_symbol = symbol_or_unknown t, oldPrice = price t,
             newPrice = newP, msg_timestamp = 1000\<rparr>"
  have g: "getRandomPriceForToken ?e (token_id t) = Inr newP" using assms(2) by simp
  have c: "createTokenPriceUpdateMessage ?e (token_id t) (symbol_or_unknown t) (price t) newP = Inr ?m"
    by (rule sample_message)
  have pb: "sendPriceUpdateMessage ?e connected_producer ?m
              = (Inr (), [Send (token_id t) (token_id t) 1,
                          Log LOG (''Sent message to Kafka: '' @ token_id t)])"
    using assms(1) sample_publish_ok [of b ?m p sv] by simp
  then have pb1: "fst (sendPriceUpdateMessage ?e connected_producer ?m) = Inr ()" by simp
  have sv: "repository_save ?e (t\<lparr>price := newP, lastPriceUpdate := now ?e\<rparr>) = None"
    using assms(4) by simp
  show ?thesis
    unfolding updateTokenPrice_saved [OF g assms(3) c pb1 sv] pb by simp
qed



text \<open>
  C6. In a tick whose load succeeded, over rows with distinct keys and for every order in
  which the runtime resumes the items: every item gets a settlement, the one it gets when
  run alone, so a rejection stops no sibling; the table afterwards holds for every item the
  row it has after its own update alone, which is the old row when the item rejected and
  carries the new price when it resolved; every effect of every item is in the trace of
  the tick; and the trace has exactly one warning, carrying the number of rejected
  settlements, when there is one, and none otherwise.
\<close>

theorem failure_isolation:
  "repository_find e = None \<and> distinct (map token_id st) \<longrightarrow>
     fst (updatePrices_try e k sch st) = Inr (map (\<lambda>t. fst (updateTokenPrice e k [t] t)) st)
   \<and> snd (snd (updatePrices_try e k sch st)) = map (row_after e k) st
   \<and> (\<forall>t err. fst (updateTokenPrice e k [t] t) = Inl err \<longrightarrow> row_after e k t = t)
   \<and> (\<forall>t p. fst (updateTokenPrice e k [t] t) = Inr ()
              \<and> getRandomPriceForToken e (token_id t) = Inr p
            \<longrightarrow> price (row_after e k t) = p)
   \<and> (\<forall>t x. t \<in> set st \<and> x \<in> set (fst (snd (updateTokenPrice e k [t] t)))
            \<longrightarrow> x \<in> set (fst (snd (updatePrices_try e k sch st))))
   \<and> lines_at WARN (fst (snd (updatePrices_try e k sch st)))
       = (if filter isl (map (\<lambda>t. fst (updateTokenPrice e k [t] t)) st) = [] then []
          else [show_nat (length (filter isl (map (\<lambda>t. fst (updateTokenPrice e k [t] t)) st)))
                @ '' token(s) failed to update''])"
proof (intro impI conjI allI)
  assume h: "repository_find e = None \<and> distinct (map token_id st)"
  then have f: "repository_find e = None" and d: "distinct (map token_id st)" by simp_all
  note eq = updatePrices_try_loaded [OF f, of k sch st]
  show "fst (updatePrices_try e k sch st) = Inr (map (\<lambda>t. fst (updateTokenPrice e k [t] t)) st)"
    by (simp add: eq)
  have "snd (snd (allSettled e k st st))
          = map (\<lambda>u. if token_id u \<in> token_id ` set st then row_after e k u else u) st"
    using d by (intro allSettled_table) simp_all
  also have "\<dots> = map (row_after e k) st" by simp
  finally show "snd (snd (updatePrices_try e k sch st)) = map (row_after e k) st"
    by (simp add: eq)
  have items: "lines_at WARN (interleave sch (map (\<lambda>t. fst (snd (updateTokenPrice e k [t] t))) st)) = []"
    by (rule lines_at_interleave_none) (auto simp: updateTokenPrice_no_warn)
  show "lines_at WARN (fst (snd (updatePrices_try e k sch st)))
       = (if filter isl (map (\<lambda>t. fst (updateTokenPrice e k [t] t)) st) = [] then []
          else [show_nat (length (filter isl (map (\<lambda>t. fst (updateTokenPrice e k [t] t)) st)))
                @ '' token(s) failed to update''])"
    by (simp add: eq lines_at_append items lines_at_other_level)
  fix t x
  assume "t \<in> set st \<and> x \<in> set (fst (snd (updateTokenPrice e k [t] t)))"
  then show "x \<in> set (fst (snd (updatePrices_try e k sch st)))"
    by (auto simp: eq set_interleave)
next
  fix t err
  assume "fst (updateTokenPrice e k [t] t) = Inl err"
  then show "row_after e k t = t" by (rule row_after_failed)
next
  fix t p
  assume "fst (updateTokenPrice e k [t] t) = Inr ()
              \<and> getRandomPriceForToken e (token_id t) = Inr p"
  then show "price (row_after e k t) = p" using row_after_done by blast
qed


theorem failure_isolation_witness:
  "repository_find env_broker_rejects_B = None
   \<and> distinct (map token_id [tokenA, tokenB, tokenC])
   \<and> fst (updatePrices_try env_broker_rejects_B connected_producer [2, 0, 1, 1, 0]
            [tokenA, tokenB, tokenC])
       = Inr [Inr (),
              Inl (new_Error ''Failed to send message after 3 attempts: broker unavailable''),
              Inr ()]
   \<and> map price (snd (snd (updatePrices_try env_broker_rejects_B connected_producer [2, 0, 1, 1, 0]
                             [tokenA, tokenB, tokenC])))
       = [Num 2, Num 1, Num 2]
   \<and> lines_at WARN (fst (snd (updatePrices_try env_broker_rejects_B connected_producer
                                  [2, 0, 1, 1, 0] [tokenA, tokenB, tokenC])))
       = [''1 token(s) failed to update'']
   \<and> repository_find env_mixed = None
   \<and> fst (updatePrices_try env_mixed connected_producer [1, 2] [tokenA, tokenB, tokenC])
       = Inr [Inl (new_Error ''source down''), Inl (new_Error ''store down''), Inr ()]
   \<and> map price (snd (snd (updatePrices_try env_mixed connected_producer [1, 2]
                             [tokenA, tokenB, tokenC])))
       = [Num 1, Num 1, Num 2]
   \<and> lines_at WARN (fst (snd (updatePrices_try env_mixed connected_producer [1, 2]
                                  [tokenA, tokenB, tokenC])))
       = [''2 token(s) failed to update'']
   \<and> PriceSource ''C''
       \<in> set (fst (snd (updatePrices_try env_mixed connected_producer [1, 2]
                           [tokenA, tokenB, tokenC])))"
proof -
  let ?e = env_broker_rejects_B
  let ?x = env_mixed
  let ?st = "[tokenA, tokenB, tokenC]"
  have h: "repository_find ?e = None \<and> distinct (map token_id ?st)"
    by (simp add: env_broker_rejects_B_def tokenA_def tokenB_def tokenC_def)
  have hx: "repository_find ?x = None \<and> distinct (map token_id ?st)"
    by (simp add: env_mixed_def tokenA_def tokenB_def tokenC_def)
  have a: "fst (updateTokenPrice ?e connected_producer [tokenA] tokenA) = Inr ()"
    unfolding env_broker_rejects_B_def
    by (rule sample_item_saved [where newP = "Num 2"]) (simp_all add: tokenA_def strict_neq_def)
  have c: "fst (updateTokenPrice ?e connected_producer [tokenC] tokenC) = Inr ()"
    unfolding env_broker_rejects_B_def
    by (rule sample_item_saved [where newP = "Num 2"]) (simp_all add: tokenC_def strict_neq_def)
  have b: "fst (updateTokenPrice ?e connected_producer [tokenB] tokenB)
             = Inl (new_Error ''Failed to send message after 3 attempts: broker unavailable'')"
    unfolding env_broker_rejects_B_def
    by (rule sample_item_publish_failed [where newP = "Num 2"])
       (simp_all add: tokenB_def strict_neq_def)
  have g: "\<And>t. getRandomPriceForToken ?e (token_id t) = Inr (Num 2)"
    by (simp add: env_broker_rejects_B_def)
  have xa: "fst (updateTokenPrice ?x connected_producer [tokenA] tokenA)
              = Inl (new_Error ''source down'')"
    by (simp add: env_mixed_def updateTokenPrice_source_failed tokenA_def)
  have xb: "fst (updateTokenPrice ?x connected_producer [tokenB] tokenB)
              = Inl (new_Error ''store down'')"
    unfolding env_mixed_def
    by (subst sample_item_save_failed [where newP = "Num 2" and err = "new_Error ''store down''"])
       (simp_all add: tokenB_def strict_neq_def)
  have xc: "fst (updateTokenPrice ?x connected_producer [tokenC] tokenC) = Inr ()"
    unfolding env_mixed_def
    by (rule sample_item_resolved [where newP = "Num 2"]) (simp_all add: tokenC_def strict_neq_def)
  have xg: "getRandomPriceForToken ?x (token_id tokenC) = Inr (Num 2)"
    by (simp add: env_mixed_def tokenC_def)
  have xs: "PriceSource ''C'' \<in> set (fst (snd (updateTokenPrice ?x connected_producer [tokenC] tokenC)))"
    by (simp add: updateTokenPrice_def env_mixed_def tokenC_def strict_neq_def Let_def
          split: sum.splits option.splits)
  note iso = failure_isolation [of ?e ?st connected_producer "[2, 0, 1, 1, 0]", rule_format, OF h]
  note isx = failure_isolation [of ?x ?st connected_producer "[1, 2]", rule_format, OF hx]
  have r: "fst (updatePrices_try ?e connected_producer [2, 0, 1, 1, 0] ?st)
       = Inr [Inr (),
              Inl (new_Error ''Failed to send message after 3 attempts: broker unavailable''),
              Inr ()]"
    using iso a b c by simp
  have pa: "price (row_after ?e connected_producer tokenA) = Num 2"
    using iso a g by blast
  have pc: "price (row_after ?e connected_producer tokenC) = Num 2"
    using iso c g by blast
  have pb: "row_after ?e connected_producer tokenB = tokenB"
    using iso b by blast
  have t: "map price (snd (snd (updatePrices_try ?e connected_producer [2, 0, 1, 1, 0] ?st)))
             = [Num 2, Num 1, Num 2]"
    using iso pa pb pc by (simp add: tokenB_def)
  have w: "lines_at WARN (fst (snd (updatePrices_try ?e connected_producer [2, 0, 1, 1, 0] ?st)))
             = [''1 token(s) failed to update'']"
    using iso a b c by (simp add: show_nat_1)
  have xr: "fst (updatePrices_try ?x connected_producer [1, 2] ?st)
       = Inr [Inl (new_Error ''source down''), Inl (new_Error ''store down''), Inr ()]"
    using isx xa xb xc by simp
  have xpa: "row_after ?x connected_producer tokenA = tokenA" using isx xa by blast
  have xpb: "row_after ?x connected_producer tokenB = tokenB" using isx xb by blast
  have xpc: "price (row_after ?x connected_producer tokenC) = Num 2" using isx xc xg by blast
  have xt: "map price (snd (snd (updatePrices_try ?x connected_producer [1, 2] ?st)))
             = [Num 1, Num 1, Num 2]"
    using isx xpa xpb xpc by (simp add: tokenA_def tokenB_def)
  have xw: "lines_at WARN (fst (snd (updatePrices_try ?x connected_producer [1, 2] ?st)))
             = [''2 token(s) failed to update'']"
    using isx xa xb xc by (simp add: show_nat_2)
  have xin: "PriceSource ''C'' \<in> set (fst (snd (updatePrices_try ?x connected_producer [1, 2] ?st)))"
  proof -
    have "tokenC \<in> set ?st" by simp
    with isx xs show ?thesis by blast
  qed
  from h hx r t w xr xt xw xin show ?thesis by simp
qed

text \<open>
  C9, as the claim states it, fails: a tick whose only item fails in the price source and a
  tick whose only item fails in \<^verbatim>\<open>save\<close> after a successful publish, both with the error
  \<^verbatim>\<open>timeout\<close>, put the same warning and the same error line in the log.
\<close>

theorem persist_failure_report_counterexample:
  "fst (updateTokenPrice env_source_down connected_producer [tokenA] tokenA)
     = Inl (new_Error ''timeout'')
   \<and> fst (snd (updateTokenPrice env_source_down connected_producer [tokenA] tokenA))
     = [PriceSource ''A'']
   \<and> fst (updateTokenPrice env_store_down connected_producer [tokenA] tokenA)
     = Inl (new_Error ''timeout'')
   \<and> saves_of (fst (snd (updateTokenPrice env_store_down connected_producer [tokenA] tokenA)))
     = [\<lparr>token_id = ''A'', symbol = Some ''AAA'', price = Num 2, lastPriceUpdate = 1000\<rparr>]
   \<and> lines_at WARN (fst (snd (updatePrices_try env_source_down connected_producer [] [tokenA])))
     = [''1 token(s) failed to update'']
   \<and> lines_at WARN (fst (snd (updatePrices_try env_store_down connected_producer [] [tokenA])))
     = [''1 token(s) failed to update'']
   \<and> lines_at ERROR (fst (snd (updatePrices_try env_source_down connected_producer [] [tokenA])))
     = [''Failed to update token: Error: timeout'']
   \<and> lines_at ERROR (fst (snd (updatePrices_try env_store_down connected_producer [] [tokenA])))
     = [''Failed to update token: Error: timeout'']"
proof -
  have f1: "repository_find env_source_down = None" by (simp add: env_source_down_def)
  have f2: "repository_find env_store_down = None" by (simp add: env_store_down_def)
  show ?thesis
    by (simp add: updatePrices_try_loaded [OF f1] updatePrices_try_loaded [OF f2]
          source_down_item store_down_item show_nat_1 error_toString_new_Error)
qed


text \<open>
  C9, amended. After a successful load the trace of a tick is the start line, the effects
  of the items in the order of the schedule, and the report: when a settlement is rejected,
  one warning with the number of rejected settlements and, for each of them in item order,
  one error line \<^verbatim>\<open>Failed to update token: \<close> followed by the text of its reason, whatever
  step rejected; so every rejected item has its line and is counted. An item whose
  \<^verbatim>\<open>save\<close> fails after a successful publish logs no line of its own for that: its log
  lines are those of its publish, the last being \<^verbatim>\<open>Sent message to Kafka: ...\<close>. An item
  that fails in the price source has no effect but the call, and an item whose publish
  fails logs no \<^verbatim>\<open>Sent message to Kafka\<close> line.
\<close>

theorem failure_report_format:
  "(repository_find e = None \<longrightarrow>
      fst (snd (updatePrices_try e k sch st))
        = Log LOG (''Updating prices for '' @ show_nat (length st) @ '' tokens...'')
          # interleave sch (map (\<lambda>t. fst (snd (updateTokenPrice e k [t] t))) st)
          @ (if filter isl (map (\<lambda>t. fst (updateTokenPrice e k [t] t)) st) = [] then []
             else Log WARN (show_nat (length (filter isl
                                         (map (\<lambda>t. fst (updateTokenPrice e k [t] t)) st)))
                            @ '' token(s) failed to update'')
                  # map (\<lambda>r. Log ERROR (''Failed to update token: '' @ error_toString (projl r)))
                        (filter isl (map (\<lambda>t. fst (updateTokenPrice e k [t] t)) st))))
   \<and> (repository_find e = None \<and> u \<in> set st \<and> fst (updateTokenPrice e k [u] u) = Inl reason
      \<longrightarrow> Log ERROR (''Failed to update token: '' @ error_toString reason)
            \<in> set (fst (snd (updatePrices_try e k sch st)))
        \<and> Log WARN (show_nat (length (filter isl
                                  (map (\<lambda>t. fst (updateTokenPrice e k [t] t)) st)))
                     @ '' token(s) failed to update'')
            \<in> set (fst (snd (updatePrices_try e k sch st)))
        \<and> 0 < length (filter isl (map (\<lambda>t. fst (updateTokenPrice e k [t] t)) st)))
   \<and> (getRandomPriceForToken e (token_id t) = Inr newP \<and> strict_neq (price t) newP
        \<and> createTokenPriceUpdateMessage e (token_id t) (symbol_or_unknown t) (price t) newP = Inr m
        \<and> fst (sendPriceUpdateMessage e k m) = Inr ()
        \<and> repository_save e (t\<lparr>price := newP, lastPriceUpdate := now e\<rparr>) = Some err
      \<longrightarrow> fst (updateTokenPrice e k st t) = Inl err
        \<and> Log LOG (''Sent message to Kafka: '' @ stringify e m)
            \<in> set (fst (snd (updateTokenPrice e k st t)))
        \<and> logs_of (fst (snd (updateTokenPrice e k st t)))
            = logs_of (snd (sendWithRetry e (tokenId m) (stringify e m) 1))
              @ [(LOG, ''Sent message to Kafka: '' @ stringify e m)])
   \<and> (getRandomPriceForToken e (token_id t) = Inl err
      \<longrightarrow> fst (updateTokenPrice e k st t) = Inl err
        \<and> fst (snd (updateTokenPrice e k st t)) = [PriceSource (token_id t)])
   \<and> (getRandomPriceForToken e (token_id t) = Inr newP \<and> strict_neq (price t) newP
        \<and> createTokenPriceUpdateMessage e (token_id t) (symbol_or_unknown t) (price t) newP = Inr m
        \<and> fst (sendPriceUpdateMessage e k m) = Inl err
      \<longrightarrow> fst (updateTokenPrice e k st t) = Inl err
        \<and> (\<forall>x. Log LOG (''Sent message to Kafka: '' @ x)
                  \<notin> set (fst (snd (updateTokenPrice e k st t)))))"
proof (intro conjI impI allI)
  assume "repository_find e = None"
  then show "fst (snd (updatePrices_try e k sch st))
        = Log LOG (''Updating prices for '' @ show_nat (length st) @ '' tokens...'')
          # interleave sch (map (\<lambda>t. fst (snd (updateTokenPrice e k [t] t))) st)
          @ (if filter isl (map (\<lambda>t. fst (updateTokenPrice e k [t] t)) st) = [] then []
             else Log WARN (show_nat (length (filter isl
                                         (map (\<lambda>t. fst (updateTokenPrice e k [t] t)) st)))
                            @ '' token(s) failed to update'')
                  # map (\<lambda>r. Log ERROR (''Failed to update token: '' @ error_toString (projl r)))
                        (filter isl (map (\<lambda>t. fst (updateTokenPrice e k [t] t)) st)))"
    by (simp add: updatePrices_try_loaded)
next
  assume h: "repository_find e = None \<and> u \<in> set st \<and> fst (updateTokenPrice e k [u] u) = Inl reason"
  let ?results = "map (\<lambda>t. fst (updateTokenPrice e k [t] t)) st"
  from h have f: "repository_find e = None" by blast
  from h have "Inl reason \<in> set ?results" by force
  then have mem: "Inl reason \<in> set (filter isl ?results)" by simp
  then have ne: "filter isl ?results \<noteq> []" by (metis empty_iff list.set(1))
  have "Log ERROR (''Failed to update token: '' @ error_toString (projl (Inl reason :: js_error + unit)))
          \<in> (\<lambda>r. Log ERROR (''Failed to update token: '' @ error_toString (projl r)))
              ` set (filter isl ?results)"
    using mem by (rule imageI)
  then have line: "Log ERROR (''Failed to update token: '' @ error_toString reason)
          \<in> set (map (\<lambda>r. Log ERROR (''Failed to update token: '' @ error_toString (projl r)))
                   (filter isl ?results))"
    by simp
  show "Log ERROR (''Failed to update token: '' @ error_toString reason)
            \<in> set (fst (snd (updatePrices_try e k sch st)))"
    using line ne by (simp add: updatePrices_try_loaded [OF f])
  show "Log WARN (show_nat (length (filter isl ?results)) @ '' token(s) failed to update'')
            \<in> set (fst (snd (updatePrices_try e k sch st)))"
    using ne by (simp add: updatePrices_try_loaded [OF f])
  show "0 < length (filter isl ?results)" using ne by (simp only: length_greater_0_conv not_False_eq_True)
next
  assume h: "getRandomPriceForToken e (token_id t) = Inr newP \<and> strict_neq (price t) newP
        \<and> createTokenPriceUpdateMessage e (token_id t) (symbol_or_unknown t) (price t) newP = Inr m
        \<and> fst (sendPriceUpdateMessage e k m) = Inr ()
        \<and> repository_save e (t\<lparr>price := newP, lastPriceUpdate := now e\<rparr>) = Some err"
  then have eq: "updateTokenPrice e k st t
     = (Inl err, [PriceSource (token_id t), Construct (token_id t) (price t) newP]
                 @ snd (sendPriceUpdateMessage e k m)
                 @ [PublishDone m, Save (t\<lparr>price := newP, lastPriceUpdate := now e\<rparr>)], st)"
    by (intro updateTokenPrice_save_failed) simp_all
  have pub: "snd (sendPriceUpdateMessage e k m)
           = snd (sendWithRetry e (tokenId m) (stringify e m) 1)
             @ [Log LOG (''Sent message to Kafka: '' @ stringify e m)]"
    using h by (intro sendPriceUpdateMessage_done_trace) simp
  show "fst (updateTokenPrice e k st t) = Inl err" by (simp add: eq)
  show "Log LOG (''Sent message to Kafka: '' @ stringify e m)
            \<in> set (fst (snd (updateTokenPrice e k st t)))"
    by (simp add: eq pub)
  show "logs_of (fst (snd (updateTokenPrice e k st t)))
            = logs_of (snd (sendWithRetry e (tokenId m) (stringify e m) 1))
              @ [(LOG, ''Sent message to Kafka: '' @ stringify e m)]"
    by (simp add: eq pub logs_of_append)
next
  assume h: "getRandomPriceForToken e (token_id t) = Inl err"
  show "fst (updateTokenPrice e k st t) = Inl err"
    by (simp add: updateTokenPrice_source_failed [OF h])
  show "fst (snd (updateTokenPrice e k st t)) = [PriceSource (token_id t)]"
    by (simp add: updateTokenPrice_source_failed [OF h])
next
  assume h: "getRandomPriceForToken e (token_id t) = Inr newP \<and> strict_neq (price t) newP
        \<and> createTokenPriceUpdateMessage e (token_id t) (symbol_or_unknown t) (price t) newP = Inr m
        \<and> fst (sendPriceUpdateMessage e k m) = Inl err"
  then have eq: "updateTokenPrice e k st t
     = (Inl err, [PriceSource (token_id t), Construct (token_id t) (price t) newP]
                 @ snd (sendPriceUpdateMessage e k m), st)"
    by (intro updateTokenPrice_publish_failed) simp_all
  show "fst (updateTokenPrice e k st t) = Inl err" by (simp add: eq)
  fix x
  have "fst (sendPriceUpdateMessage e k m) = Inl err" using h by simp
  from failed_publish_has_no_sent_line [OF this, of x]
  show "Log LOG (''Sent message to Kafka: '' @ x) \<notin> set (fst (snd (updateTokenPrice e k st t)))"
    by (simp add: eq)
qed



theorem failure_report_format_witness:
  "repository_find env_mixed = None
   \<and> tokenB \<in> set [tokenA, tokenB, tokenC]
   \<and> getRandomPriceForToken env_mixed ''A'' = Inl (new_Error ''source down'')
   \<and> fst (snd (updateTokenPrice env_mixed connected_producer [tokenA] tokenA)) = [PriceSource ''A'']
   \<and> repository_save env_mixed
        \<lparr>token_id = ''B'', symbol = Some ''BBB'', price = Num 2, lastPriceUpdate = 1000\<rparr>
       = Some (new_Error ''store down'')
   \<and> fst (updateTokenPrice env_mixed connected_producer [tokenB] tokenB)
       = Inl (new_Error ''store down'')
   \<and> logs_of (fst (snd (updateTokenPrice env_mixed connected_producer [tokenB] tokenB)))
       = [(LOG, ''Sent message to Kafka: B'')]
   \<and> lines_at WARN (fst (snd (updatePrices_try env_mixed connected_producer [2, 1, 0, 1]
                                  [tokenA, tokenB, tokenC])))
       = [''2 token(s) failed to update'']
   \<and> lines_at ERROR (fst (snd (updatePrices_try env_mixed connected_producer [2, 1, 0, 1]
                                   [tokenA, tokenB, tokenC])))
       = [''Failed to update token: Error: source down'',
          ''Failed to update token: Error: store down'']
   \<and> Log ERROR ''Failed to update token: Error: store down''
       \<in> set (fst (snd (updatePrices_try env_mixed connected_producer [2, 1, 0, 1]
                           [tokenA, tokenB, tokenC])))
   \<and> fst (sendPriceUpdateMessage env_broker_rejects_B connected_producer
            \<lparr>tokenId = ''B'', msg_symbol = ''BBB'', oldPrice = Num 1, newPrice = Num 2,
             msg_timestamp = 1000\<rparr>)
       = Inl (new_Error ''Failed to send message after 3 attempts: broker unavailable'')
   \<and> Log LOG ''Sent message to Kafka: B''
       \<notin> set (fst (snd (updateTokenPrice env_broker_rejects_B connected_producer [tokenB] tokenB)))"
proof -
  let ?x = env_mixed
  let ?st = "[tokenA, tokenB, tokenC]"
  let ?sch = "[2, 1, 0, 1] :: nat list"
  let ?mB = "\<lparr>tokenId = ''B'', msg_symbol = ''BBB'', oldPrice = Num 1, newPrice = Num 2,
             msg_timestamp = 1000\<rparr>"
  let ?err = "new_Error ''Failed to send message after 3 attempts: broker unavailable''"
  have f: "repository_find ?x = None" by (simp add: env_mixed_def)
  have inB: "tokenB \<in> set ?st" by simp
  have xa: "updateTokenPrice ?x connected_producer [tokenA] tokenA
              = (Inl (new_Error ''source down''), [PriceSource ''A''], [tokenA])"
    by (simp add: env_mixed_def updateTokenPrice_source_failed tokenA_def)
  have xb: "updateTokenPrice ?x connected_producer [tokenB] tokenB
     = (Inl (new_Error ''store down''),
        [PriceSource ''B'', Construct ''B'' (Num 1) (Num 2), Send ''B'' ''B'' 1,
         Log LOG ''Sent message to Kafka: B'',
         PublishDone ?mB,
         Save \<lparr>token_id = ''B'', symbol = Some ''BBB'', price = Num 2, lastPriceUpdate = 1000\<rparr>],
        [tokenB])"
    unfolding env_mixed_def
    by (subst sample_item_save_failed [where newP = "Num 2" and err = "new_Error ''store down''"])
       (simp_all add: tokenB_def strict_neq_def symbol_or_unknown_def)
  have xc: "fst (updateTokenPrice ?x connected_producer [tokenC] tokenC) = Inr ()"
    unfolding env_mixed_def
    by (rule sample_item_resolved [where newP = "Num 2"]) (simp_all add: tokenC_def strict_neq_def)
  have xct: "lines_at ERROR (fst (snd (updateTokenPrice ?x connected_producer [tokenC] tokenC))) = []"
    unfolding env_mixed_def
    by (subst sample_item_resolved_trace [where newP = "Num 2"])
       (simp_all add: tokenC_def strict_neq_def)
  have h1: "getRandomPriceForToken ?x (token_id tokenB) = Inr (Num 2)
        \<and> strict_neq (price tokenB) (Num 2)
        \<and> createTokenPriceUpdateMessage ?x (token_id tokenB) (symbol_or_unknown tokenB)
             (price tokenB) (Num 2) = Inr ?mB
        \<and> fst (sendPriceUpdateMessage ?x connected_producer ?mB) = Inr ()
        \<and> repository_save ?x (tokenB\<lparr>price := Num 2, lastPriceUpdate := now ?x\<rparr>)
            = Some (new_Error ''store down'')"
    by (simp add: env_mixed_def tokenB_def strict_neq_def sample_message
          symbol_or_unknown_def sample_publish_ok)
  have h2: "getRandomPriceForToken ?x (token_id tokenA) = Inl (new_Error ''source down'')"
    by (simp add: env_mixed_def tokenA_def)
  have pf: "fst (sendPriceUpdateMessage env_broker_rejects_B connected_producer ?mB) = Inl ?err"
    unfolding env_broker_rejects_B_def by (rule sample_publish_fails) simp
  have h3: "getRandomPriceForToken env_broker_rejects_B (token_id tokenB) = Inr (Num 2)
        \<and> strict_neq (price tokenB) (Num 2)
        \<and> createTokenPriceUpdateMessage env_broker_rejects_B (token_id tokenB)
             (symbol_or_unknown tokenB) (price tokenB) (Num 2) = Inr ?mB
        \<and> fst (sendPriceUpdateMessage env_broker_rejects_B connected_producer ?mB) = Inl ?err"
    using pf
    by (simp add: env_broker_rejects_B_def tokenB_def strict_neq_def sample_message
          symbol_or_unknown_def)
  note r1 = failure_report_format [where e = ?x and k = connected_producer and sch = ?sch
      and st = ?st and u = tokenB and reason = "new_Error ''store down''"
      and t = tokenB and newP = "Num 2" and m = ?mB and err = "new_Error ''store down''"]
  note r2 = failure_report_format [where e = ?x and k = connected_producer and sch = ?sch
      and st = "[tokenA]" and t = tokenA and err = "new_Error ''source down''"]
  note r3 = failure_report_format [where e = env_broker_rejects_B and k = connected_producer
      and st = "[tokenB]" and t = tokenB and newP = "Num 2" and m = ?mB and err = ?err]
  define trs where "trs = map (\<lambda>t. fst (snd (updateTokenPrice ?x connected_producer [t] t))) ?st"
  define res where "res = map (\<lambda>t. fst (updateTokenPrice ?x connected_producer [t] t)) ?st"
  have tr: "fst (snd (updatePrices_try ?x connected_producer ?sch ?st))
        = Log LOG (''Updating prices for '' @ show_nat (length ?st) @ '' tokens...'')
          # interleave ?sch trs
          @ (if filter isl res = [] then []
             else Log WARN (show_nat (length (filter isl res)) @ '' token(s) failed to update'')
                  # map (\<lambda>r. Log ERROR (''Failed to update token: '' @ error_toString (projl r)))
                        (filter isl res))"
    unfolding trs_def res_def using r1 f by blast
  have res: "res = [Inl (new_Error ''source down''), Inl (new_Error ''store down''), Inr ()]"
    by (simp add: res_def xa xb xc)
  have items_e: "\<And>sch. lines_at ERROR (interleave sch trs) = []"
    by (rule lines_at_interleave_none) (auto simp: trs_def xa xb xct)
  have items_w: "\<And>sch. lines_at WARN (interleave sch trs) = []"
    by (rule lines_at_interleave_none) (auto simp: trs_def updateTokenPrice_no_warn)
  have cw: "lines_at WARN (fst (snd (updatePrices_try ?x connected_producer ?sch ?st)))
              = [''2 token(s) failed to update'']"
    unfolding tr res
    by (simp add: lines_at_append items_w show_nat_2 del: interleave.simps)
  have ce: "lines_at ERROR (fst (snd (updatePrices_try ?x connected_producer ?sch ?st)))
              = [''Failed to update token: Error: source down'',
                 ''Failed to update token: Error: store down'']"
    unfolding tr res
    by (simp add: lines_at_append items_e error_toString_new_Error del: interleave.simps)
  have c1: "fst (updateTokenPrice ?x connected_producer [tokenB] tokenB)
              = Inl (new_Error ''store down'')
          \<and> logs_of (fst (snd (updateTokenPrice ?x connected_producer [tokenB] tokenB)))
              = logs_of (snd (sendWithRetry ?x (tokenId ?mB) (stringify ?x ?mB) 1))
                @ [(LOG, ''Sent message to Kafka: '' @ stringify ?x ?mB)]"
    using failure_report_format [where e = ?x and k = connected_producer and sch = ?sch
      and st = "[tokenB]" and t = tokenB and newP = "Num 2" and m = ?mB
      and err = "new_Error ''store down''"] h1
    by blast
  have c1l: "logs_of (fst (snd (updateTokenPrice ?x connected_producer [tokenB] tokenB)))
              = [(LOG, ''Sent message to Kafka: B'')]"
    by (simp add: xb)
  have c1m: "Log ERROR (''Failed to update token: '' @ error_toString (new_Error ''store down''))
       \<in> set (fst (snd (updatePrices_try ?x connected_producer ?sch ?st)))"
    using r1 f inB c1 by blast
  have c2: "fst (snd (updateTokenPrice ?x connected_producer [tokenA] tokenA))
              = [PriceSource (token_id tokenA)]"
    using r2 h2 by blast
  have c3: "Log LOG (''Sent message to Kafka: '' @ ''B'')
       \<notin> set (fst (snd (updateTokenPrice env_broker_rejects_B connected_producer [tokenB] tokenB)))"
    using r3 h3 by blast
  from f inB h1 h2 pf c1 c1l c1m c2 c3 cw ce show ?thesis
    by (simp add: env_mixed_def tokenA_def tokenB_def error_toString_new_Error)
qed

section \<open>The scheduler: overlap guard and shutdown\<close>

lemma logger_fields [simp]:
  "isProcessing (logger l txt s) = isProcessing s"
  "ticksInFlight (logger l txt s) = ticksInFlight s"
  "isRunning (logger l txt s) = isRunning s"
  "timer (logger l txt s) = timer s"
  "armedIntervals (logger l txt s) = armedIntervals s"
  "stopCalls (logger l txt s) = stopCalls s"
  "shutdownPromise (logger l txt s) = shutdownPromise s"
  "out (logger l txt s) = out s @ [Log l txt]"
  by (simp_all add: logger_def)

lemma stop_loop_fields [simp]:
  "isProcessing (snd (stop_loop a s)) = isProcessing s"
  "ticksInFlight (snd (stop_loop a s)) = ticksInFlight s"
  "isRunning (snd (stop_loop a s)) = isRunning s"
  "timer (snd (stop_loop a s)) = timer s"
  "armedIntervals (snd (stop_loop a s)) = armedIntervals s"
  "stopCalls (snd (stop_loop a s)) = stopCalls s"
  "shutdownPromise (snd (stop_loop a s)) = shutdownPromise s"
  by (simp_all add: stop_loop_def Let_def)

lemma stop_begin_fields [simp]:
  "isProcessing (snd (stop_begin s)) = isProcessing s"
  "ticksInFlight (snd (stop_begin s)) = ticksInFlight s"
  "isRunning (snd (stop_begin s)) = False"
  "timer (snd (stop_begin s)) = (timer s \<and> \<not> isRunning s)"
  "armedIntervals (snd (stop_begin s))
     = (if isRunning s \<and> timer s then armedIntervals s - 1 else armedIntervals s)"
  "stopCalls (snd (stop_begin s)) = stopCalls s"
  "shutdownPromise (snd (stop_begin s)) = shutdownPromise s"
  by (simp_all add: stop_begin_def Let_def)

lemma updatePrices_begin_fields [simp]:
  "isProcessing (updatePrices_begin s) = True"
  "ticksInFlight (updatePrices_begin s)
     = (if isProcessing s then ticksInFlight s else ticksInFlight s + 1)"
  "isRunning (updatePrices_begin s) = isRunning s"
  "timer (updatePrices_begin s) = timer s"
  "armedIntervals (updatePrices_begin s) = armedIntervals s"
  by (simp_all add: updatePrices_begin_def)

lemma updatePrices_end_fields [simp]:
  "isProcessing (updatePrices_end thrown s) = False"
  "ticksInFlight (updatePrices_end thrown s) = ticksInFlight s - 1"
  "isRunning (updatePrices_end thrown s) = isRunning s"
  "timer (updatePrices_end thrown s) = timer s"
  "armedIntervals (updatePrices_end thrown s) = armedIntervals s"
  by (simp_all add: updatePrices_end_def Let_def split: option.splits)

lemma guarded_new: "guarded (new_service i)"
  by (simp add: guarded_def new_service_def)

lemma guarded_start: "guarded s \<Longrightarrow> guarded (start s)"
  by (auto simp: guarded_def start_def Let_def)

lemma guarded_interval_callback: "guarded s \<Longrightarrow> guarded (interval_callback s)"
  by (auto simp: guarded_def interval_callback_def)

lemma guarded_end: "guarded s \<Longrightarrow> guarded (updatePrices_end thrown s)"
  by (auto simp: guarded_def)

lemma guarded_stop_begin: "guarded s \<Longrightarrow> guarded (snd (stop_begin s))"
  by (auto simp: guarded_def)

lemma guarded_stop_resume: "guarded s \<Longrightarrow> guarded (snd (stop_resume a s))"
  by (auto simp: guarded_def stop_resume_def)

lemma guarded_stopCalls: "guarded (s\<lparr>stopCalls := c\<rparr>) = guarded s"
  by (simp add: guarded_def)

lemma guarded_shutdownPromise: "guarded (s\<lparr>shutdownPromise := c\<rparr>) = guarded s"
  by (simp add: guarded_def)

lemma guarded_onModuleDestroy: "guarded s \<Longrightarrow> guarded (snd (onModuleDestroy s))"
  by (cases "shutdownPromise s")
     (simp_all add: onModuleDestroy_def Let_def guarded_stopCalls guarded_shutdownPromise
        guarded_stop_begin)

lemma guarded_step: "guarded s \<Longrightarrow> guarded (step ev s)"
proof (cases ev)
  case CallStart
  then show "guarded s \<Longrightarrow> ?thesis" by (simp add: step_def guarded_start)
next
  case TimerFire
  then show "guarded s \<Longrightarrow> ?thesis" by (simp add: step_def guarded_interval_callback)
next
  case (TickSettled thrown)
  then show "guarded s \<Longrightarrow> ?thesis" by (simp add: step_def guarded_end)
next
  case CallStop
  then show "guarded s \<Longrightarrow> ?thesis"
    by (simp add: step_def Let_def guarded_stopCalls guarded_stop_begin)
next
  case CallDestroy
  then show "guarded s \<Longrightarrow> ?thesis" by (simp add: step_def guarded_onModuleDestroy)
next
  case (StopWake p)
  then show "guarded s \<Longrightarrow> ?thesis"
    by (simp add: step_def Let_def guarded_stopCalls guarded_stop_resume split: stop_status.splits)
qed

lemma guarded_run: "guarded s \<Longrightarrow> guarded (run evs s)"
  by (induction evs arbitrary: s) (simp_all add: guarded_step)

lemma stop_await_bound: "fst (stop_await between st s)
    \<le> (case st of Returned \<Rightarrow> 0 | Sleeping a \<Rightarrow> Suc (stop_maxAttempts - Suc a))"
proof (induction between st s rule: stop_await.induct)
  case (1 between s)
  show ?case by simp
next
  case (2 between attempts s)
  let ?r = "stop_resume attempts (between attempts s)"
  show ?case
  proof (cases "fst ?r")
    case Returned
    then have "stop_await between (fst ?r) (snd ?r) = (0, snd ?r)" by simp
    then show ?thesis by (simp add: Let_def)
  next
    case (Sleeping a)
    then have a: "a = attempts + 1" "a < stop_maxAttempts"
      by (auto simp: stop_resume_def stop_loop_def split: if_splits)
    from 2 [OF refl] Sleeping
    have "fst (stop_await between (fst ?r) (snd ?r)) \<le> Suc (stop_maxAttempts - Suc a)" by simp
    then show ?thesis using a by (simp add: Let_def)
  qed
qed

lemma stop_bound: "fst (stop between s) \<le> stop_maxAttempts"
proof -
  let ?r = "stop_begin s"
  have "fst ?r = Returned \<or> fst ?r = Sleeping 0"
    by (simp add: stop_begin_def stop_loop_def Let_def)
  then show ?thesis
    using stop_await_bound [of between "fst ?r" "snd ?r"]
    by (auto simp: stop_def Let_def stop_maxAttempts_def)
qed

lemma timer_fires_disarmed:
  "armedIntervals s = 0 \<Longrightarrow> run (replicate m TimerFire) s = s"
  by (induction m) (simp_all add: step_def)

lemma stuck_wait:
  "n < stop_maxAttempts \<Longrightarrow> isProcessing s \<Longrightarrow> armedIntervals s = 0 \<Longrightarrow>
   stop_await (\<lambda>k. run (replicate (fires k) TimerFire)) (Sleeping (stop_maxAttempts - Suc n)) s
     = (Suc n, s\<lparr>out := out s @ replicate n (Sleep 1000)
                       @ [Log WARN ''Forced shutdown after timeout'',
                          Log LOG ''Price update service stopped'']\<rparr>)"
proof (induction n arbitrary: s)
  case 0
  then show ?case
    by (simp add: timer_fires_disarmed stop_resume_def stop_loop_def Let_def logger_def
          stop_maxAttempts_def)
next
  case (Suc n)
  let ?s1 = "s\<lparr>out := out s @ [Sleep 1000]\<rparr>"
  have n: "n < stop_maxAttempts" using Suc.prems(1) by simp
  have a: "Suc (stop_maxAttempts - Suc (Suc n)) = stop_maxAttempts - Suc n"
    using Suc.prems(1) by simp
  have r: "stop_resume (stop_maxAttempts - Suc (Suc n))
             (run (replicate (fires (stop_maxAttempts - Suc (Suc n))) TimerFire) s)
           = (Sleeping (stop_maxAttempts - Suc n), ?s1)"
    using Suc.prems by (simp add: timer_fires_disarmed stop_resume_def stop_loop_def a)
  have ih: "stop_await (\<lambda>k. run (replicate (fires k) TimerFire))
              (Sleeping (stop_maxAttempts - Suc n)) ?s1
     = (Suc n, ?s1\<lparr>out := out ?s1 @ replicate n (Sleep 1000)
                       @ [Log WARN ''Forced shutdown after timeout'',
                          Log LOG ''Price update service stopped'']\<rparr>)"
    using Suc.prems by (intro Suc.IH [OF n]) simp_all
  show ?case
    by (subst stop_await.simps(2))
       (simp add: r ih Let_def replicate_app_Cons_same del: stop_await.simps)
qed

lemma stop_begin_busy:
  assumes "isRunning s" and "isProcessing s" and "guarded s"
  shows "stop_begin s
           = (Sleeping 0,
              s\<lparr>timer := False, isRunning := False, armedIntervals := 0,
                out := out s @ [Log LOG ''Stopping price update service...'',
                                Log LOG ''Waiting for current price update to complete...'',
                                Sleep 1000]\<rparr>)"
proof (cases "timer s")
  case True
  with assms show ?thesis
    by (simp add: stop_begin_def stop_loop_def Let_def logger_def guarded_def stop_maxAttempts_def)
next
  case False
  with assms have z: "armedIntervals s = 0" by (simp add: guarded_def)
  have "s\<lparr>timer := False, isRunning := False, armedIntervals := 0,
                out := out s @ [Log LOG ''Stopping price update service...'',
                                Log LOG ''Waiting for current price update to complete...'',
                                Sleep 1000]\<rparr>
        = s\<lparr>isRunning := False,
                out := out s @ [Log LOG ''Stopping price update service...'',
                                Log LOG ''Waiting for current price update to complete...'',
                                Sleep 1000]\<rparr>"
    using False z by (intro scheduler.equality) simp_all
  with assms False show ?thesis
    by (simp add: stop_begin_def stop_loop_def Let_def logger_def stop_maxAttempts_def)
qed


lemma updatePrices_releases:
  "\<not> isProcessing (fst (updatePrices e k sch (s, st))) \<or> isProcessing s"
  "ticksInFlight (fst (updatePrices e k sch (s, st))) = ticksInFlight s"
  "snd (updatePrices e k sch (s, st))
     = (if isProcessing s then st else snd (snd (updatePrices_try e k sch st)))"
  by (simp_all add: updatePrices_def Let_def)

text \<open>
  C1. After every sequence of calls, timer firings, tick settlements and wake-ups from a new
  service, at most one \<^verbatim>\<open>updatePrices\<close> is between setting the flag and its \<^verbatim>\<open>finally\<close>,
  and the flag is set exactly then. While the flag is set, a firing of the interval only
  logs that it is skipped and the initial update of \<^verbatim>\<open>start()\<close> returns at once: nothing is
  recorded for later. While it is clear, a firing sets it and begins a tick. The end of a
  tick clears the flag whether or not the work threw, and the next firing begins a tick.
\<close>

theorem no_overlap:
  "ticksInFlight (run evs (new_service i)) \<le> 1
   \<and> (isProcessing (run evs (new_service i)) \<longleftrightarrow> ticksInFlight (run evs (new_service i)) = 1)
   \<and> (isProcessing s \<longrightarrow>
         interval_callback s
           = logger WARN ''Previous update still in progress, skipping this iteration'' s
       \<and> updatePrices_begin s = s
       \<and> ticksInFlight (step TimerFire s) = ticksInFlight s
       \<and> ticksInFlight (start s) = ticksInFlight s)
   \<and> (\<not> isProcessing s \<longrightarrow>
         interval_callback s = s\<lparr>isProcessing := True, ticksInFlight := ticksInFlight s + 1\<rparr>)
   \<and> \<not> isProcessing (updatePrices_end thrown s)
   \<and> ticksInFlight (interval_callback (updatePrices_end thrown s))
       = ticksInFlight (updatePrices_end thrown s) + 1"
proof (intro conjI impI)
  have g: "guarded (run evs (new_service i))"
    by (rule guarded_run [OF guarded_new])
  show "ticksInFlight (run evs (new_service i)) \<le> 1"
    using g by (simp add: guarded_def)
  show "isProcessing (run evs (new_service i)) \<longleftrightarrow> ticksInFlight (run evs (new_service i)) = 1"
    using g by (simp add: guarded_def)
next
  assume p: "isProcessing s"
  show "interval_callback s
           = logger WARN ''Previous update still in progress, skipping this iteration'' s"
    using p by (simp add: interval_callback_def)
  show "updatePrices_begin s = s" using p by (simp add: updatePrices_begin_def)
  show "ticksInFlight (step TimerFire s) = ticksInFlight s"
    using p by (simp add: step_def interval_callback_def)
  show "ticksInFlight (start s) = ticksInFlight s"
    using p by (simp add: start_def Let_def)
next
  assume "\<not> isProcessing s"
  then show "interval_callback s = s\<lparr>isProcessing := True, ticksInFlight := ticksInFlight s + 1\<rparr>"
    by (simp add: interval_callback_def updatePrices_begin_def)
next
  show "\<not> isProcessing (updatePrices_end thrown s)" by simp
  show "ticksInFlight (interval_callback (updatePrices_end thrown s))
       = ticksInFlight (updatePrices_end thrown s) + 1"
    by (simp add: interval_callback_def)
qed

theorem no_overlap_witness:
  "isProcessing (start (new_service 5))
   \<and> ticksInFlight (step TimerFire (start (new_service 5))) = 1
   \<and> \<not> isProcessing (new_service 5)
   \<and> ticksInFlight (interval_callback (new_service 5)) = 1
   \<and> ticksInFlight (run [CallStart, TimerFire, TimerFire, TickSettled None, TimerFire]
                       (new_service 5)) \<le> 1"
proof -
  have h1: "isProcessing (start (new_service 5))"
    by (simp add: start_def new_service_def Let_def logger_def)
  have h2: "\<not> isProcessing (new_service 5)" by (simp add: new_service_def)
  have t: "ticksInFlight (start (new_service 5)) = 1"
    by (simp add: start_def new_service_def Let_def logger_def)
  have c1: "ticksInFlight (step TimerFire (start (new_service 5))) = 1"
    using no_overlap [where s = "start (new_service 5)"] h1 t by simp
  have c2: "ticksInFlight (interval_callback (new_service 5)) = 1"
    using no_overlap [where s = "new_service 5"] h2 by (simp add: new_service_def)
  have c3: "ticksInFlight (run [CallStart, TimerFire, TimerFire, TickSettled None, TimerFire]
                       (new_service 5)) \<le> 1"
    using no_overlap [where evs = "[CallStart, TimerFire, TimerFire, TickSettled None, TimerFire]"
                        and i = 5] by blast
  from h1 h2 c1 c2 c3 show ?thesis by blast
qed


lemma stop_stuck_tick:
  "fst (stop between s) \<le> stop_maxAttempts \<and> stop_maxAttempts = 30
   \<and> (isRunning s \<longrightarrow> \<not> timer (snd (stop_begin s)) \<and> \<not> isRunning (snd (stop_begin s)))
   \<and> (s = run evs (new_service i) \<and> isRunning s \<and> isProcessing s \<longrightarrow>
         step TimerFire (snd (stop_begin s)) = snd (stop_begin s)
       \<and> stop (\<lambda>k. run (replicate (fires k) TimerFire)) s
           = (30,
              s\<lparr>timer := False, isRunning := False, armedIntervals := 0,
                out := out s @ [Log LOG ''Stopping price update service...'',
                                Log LOG ''Waiting for current price update to complete...'']
                             @ replicate 30 (Sleep 1000)
                             @ [Log WARN ''Forced shutdown after timeout'',
                                Log LOG ''Price update service stopped'']\<rparr>))"
proof (intro conjI impI)
  show "fst (stop between s) \<le> stop_maxAttempts" by (rule stop_bound)
  show "stop_maxAttempts = 30" by (simp add: stop_maxAttempts_def)
next
  assume "isRunning s"
  then show "\<not> timer (snd (stop_begin s))" by simp
  show "\<not> isRunning (snd (stop_begin s))" by simp
next
  assume h: "s = run evs (new_service i) \<and> isRunning s \<and> isProcessing s"
  then have g: "guarded s" using guarded_run [OF guarded_new] by simp
  from h have r: "isRunning s" by blast
  from h have p: "isProcessing s" by blast
  note b = stop_begin_busy [OF r p g]
  let ?s1 = "s\<lparr>timer := False, isRunning := False, armedIntervals := 0,
                out := out s @ [Log LOG ''Stopping price update service...'',
                                Log LOG ''Waiting for current price update to complete...'',
                                Sleep 1000]\<rparr>"
  show "step TimerFire (snd (stop_begin s)) = snd (stop_begin s)"
    by (simp add: b step_def)
  have w: "stop_await (\<lambda>k. run (replicate (fires k) TimerFire))
             (Sleeping (stop_maxAttempts - Suc 29)) ?s1
     = (Suc 29, ?s1\<lparr>out := out ?s1 @ replicate 29 (Sleep 1000)
                       @ [Log WARN ''Forced shutdown after timeout'',
                          Log LOG ''Price update service stopped'']\<rparr>)"
    using p by (intro stuck_wait) (simp_all add: stop_maxAttempts_def)
  have z: "stop_maxAttempts - Suc 29 = 0" by (simp add: stop_maxAttempts_def)
  have rep: "Sleep 1000 # replicate 29 (Sleep 1000) = replicate 30 (Sleep 1000)"
    by (simp add: numeral_eq_Suc)
  show "stop (\<lambda>k. run (replicate (fires k) TimerFire)) s
           = (30,
              s\<lparr>timer := False, isRunning := False, armedIntervals := 0,
                out := out s @ [Log LOG ''Stopping price update service...'',
                                Log LOG ''Waiting for current price update to complete...'']
                             @ replicate 30 (Sleep 1000)
                             @ [Log WARN ''Forced shutdown after timeout'',
                                Log LOG ''Price update service stopped'']\<rparr>)"
    using w unfolding z stop_def b Let_def fst_conv snd_conv
    by (simp add: rep [symmetric] del: stop_await.simps replicate.simps replicate_Suc)
qed



lemma stop_begin_idle:
  assumes "isRunning s" and "\<not> isProcessing s" and "guarded s"
  shows "stop_begin s
           = (Returned,
              s\<lparr>timer := False, isRunning := False, armedIntervals := 0,
                out := out s @ [Log LOG ''Stopping price update service...'',
                                Log LOG ''Price update service stopped'']\<rparr>)"
proof (cases "timer s")
  case True
  with assms show ?thesis
    by (simp add: stop_begin_def Let_def logger_def guarded_def)
next
  case False
  with assms have z: "armedIntervals s = 0" by (simp add: guarded_def)
  have "s\<lparr>timer := False, isRunning := False, armedIntervals := 0,
                out := out s @ [Log LOG ''Stopping price update service...'',
                                Log LOG ''Price update service stopped'']\<rparr>
        = s\<lparr>isRunning := False,
                out := out s @ [Log LOG ''Stopping price update service...'',
                                Log LOG ''Price update service stopped'']\<rparr>"
    using False z by (intro scheduler.equality) simp_all
  with assms False show ?thesis
    by (simp add: stop_begin_def Let_def logger_def)
qed

lemma poll_flag_clear:
  "\<not> isProcessing s \<Longrightarrow>
   stop_resume a s = (Returned, logger LOG ''Price update service stopped'' s)"
  by (simp add: stop_resume_def stop_loop_def)

lemma poll_flag_set:
  "isProcessing s \<Longrightarrow> a + 1 < stop_maxAttempts \<Longrightarrow>
   stop_resume a s = (Sleeping (a + 1), s\<lparr>out := out s @ [Sleep 1000]\<rparr>)"
  by (simp add: stop_resume_def stop_loop_def)

lemma settle_wait:
  "d \<le> k \<Longrightarrow> k < stop_maxAttempts \<Longrightarrow> isProcessing s \<Longrightarrow> ticksInFlight s = 1 \<Longrightarrow>
   stop_await (\<lambda>n s'. if n = k then step (TickSettled thrown) s' else s') (Sleeping (k - d)) s
     = (Suc d,
        s\<lparr>isProcessing := False, ticksInFlight := 0,
          out := out s @ replicate d (Sleep 1000)
                 @ (case thrown of
                      None \<Rightarrow> []
                    | Some err \<Rightarrow> [Log ERROR (''Error updating prices: '' @ message err)])
                 @ [Log LOG ''Price update service stopped'']\<rparr>)"
proof (induction d arbitrary: s)
  case 0
  have e: "step (TickSettled thrown) s = updatePrices_end thrown s"
    using "0.prems" by (simp add: step_def)
  have r: "stop_resume k (step (TickSettled thrown) s)
             = (Returned, logger LOG ''Price update service stopped'' (updatePrices_end thrown s))"
    unfolding e by (rule poll_flag_clear) simp
  have st: "logger LOG ''Price update service stopped'' (updatePrices_end thrown s)
     = s\<lparr>isProcessing := False, ticksInFlight := 0,
          out := out s @ replicate 0 (Sleep 1000)
                 @ (case thrown of
                      None \<Rightarrow> []
                    | Some err \<Rightarrow> [Log ERROR (''Error updating prices: '' @ message err)])
                 @ [Log LOG ''Price update service stopped'']\<rparr>"
    using "0.prems"(4)
    by (cases thrown) (simp_all add: updatePrices_end_def logger_def Let_def)
  show ?case
    by (subst stop_await.simps(2)) (simp add: r st Let_def)
next
  case (Suc d)
  let ?s1 = "s\<lparr>out := out s @ [Sleep 1000]\<rparr>"
  have ne: "k - Suc d \<noteq> k" using Suc.prems(1) by simp
  have a: "k - Suc d + 1 = k - d" using Suc.prems(1) by simp
  have lt: "k - Suc d + 1 < stop_maxAttempts" using Suc.prems(1,2) by simp
  have r: "stop_resume (k - Suc d) s = (Sleeping (k - d), ?s1)"
    using poll_flag_set [OF Suc.prems(3) lt] a by simp
  have d: "d \<le> k" using Suc.prems(1) by simp
  have ih: "stop_await (\<lambda>n s'. if n = k then step (TickSettled thrown) s' else s')
              (Sleeping (k - d)) ?s1
     = (Suc d,
        ?s1\<lparr>isProcessing := False, ticksInFlight := 0,
          out := out ?s1 @ replicate d (Sleep 1000)
                 @ (case thrown of
                      None \<Rightarrow> []
                    | Some err \<Rightarrow> [Log ERROR (''Error updating prices: '' @ message err)])
                 @ [Log LOG ''Price update service stopped'']\<rparr>)"
    using Suc.prems by (intro Suc.IH [OF d]) simp_all
  show ?case
    by (subst stop_await.simps(2))
       (simp add: ne r ih Let_def replicate_app_Cons_same del: stop_await.simps)
qed

lemma stop_settled:
  assumes "s = run evs (new_service i)" and "isRunning s" and "isProcessing s"
      and "k < stop_maxAttempts"
  shows "stop (\<lambda>n s'. if n = k then step (TickSettled thrown) s' else s') s
           = (Suc k,
              s\<lparr>timer := False, isRunning := False, isProcessing := False,
                armedIntervals := 0, ticksInFlight := 0,
                out := out s @ [Log LOG ''Stopping price update service...'',
                                Log LOG ''Waiting for current price update to complete...'']
                             @ replicate (Suc k) (Sleep 1000)
                             @ (case thrown of
                                  None \<Rightarrow> []
                                | Some err \<Rightarrow> [Log ERROR (''Error updating prices: '' @ message err)])
                             @ [Log LOG ''Price update service stopped'']\<rparr>)"
proof -
  have g: "guarded s" using assms(1) guarded_run [OF guarded_new] by simp
  note b = stop_begin_busy [OF assms(2,3) g]
  let ?s1 = "s\<lparr>timer := False, isRunning := False, armedIntervals := 0,
                out := out s @ [Log LOG ''Stopping price update service...'',
                                Log LOG ''Waiting for current price update to complete...'',
                                Sleep 1000]\<rparr>"
  have t: "ticksInFlight ?s1 = 1" using g assms(3) by (simp add: guarded_def)
  have p: "isProcessing ?s1" using assms(3) by simp
  have w: "stop_await (\<lambda>n s'. if n = k then step (TickSettled thrown) s' else s')
             (Sleeping (k - k)) ?s1
     = (Suc k,
        ?s1\<lparr>isProcessing := False, ticksInFlight := 0,
          out := out ?s1 @ replicate k (Sleep 1000)
                 @ (case thrown of
                      None \<Rightarrow> []
                    | Some err \<Rightarrow> [Log ERROR (''Error updating prices: '' @ message err)])
                 @ [Log LOG ''Price update service stopped'']\<rparr>)"
    by (rule settle_wait [OF order_refl assms(4) p t])
  show ?thesis
    using w unfolding stop_def b Let_def fst_conv snd_conv
    by (simp del: stop_await.simps)
qed


lemma poll_at_limit:
  "isProcessing s \<Longrightarrow> \<not> a + 1 < stop_maxAttempts \<Longrightarrow>
   stop_resume a s
     = (Returned, logger LOG ''Price update service stopped''
                    (logger WARN ''Forced shutdown after timeout'' s))"
  by (simp add: stop_resume_def stop_loop_def Let_def)

lemma stop_idle:
  assumes "s = run evs (new_service i)" and "isRunning s" and "\<not> isProcessing s"
  shows "stop between s
           = (0, s\<lparr>timer := False, isRunning := False, armedIntervals := 0,
                   out := out s @ [Log LOG ''Stopping price update service...'',
                                   Log LOG ''Price update service stopped'']\<rparr>)"
proof -
  have g: "guarded s" using assms(1) guarded_run [OF guarded_new] by simp
  show ?thesis
    unfolding stop_def stop_begin_idle [OF assms(2,3) g] Let_def fst_conv snd_conv by simp
qed


text \<open>
  C7. A \<^verbatim>\<open>stop()\<close> call sleeps at most 30 times, 1000 ms each, whatever else runs between
  its polls. On a running service its part before the first \<^verbatim>\<open>await\<close> clears the interval
  and the running flag. Each poll reads the flag: found clear, the call logs the stopped
  line and returns, with no sleep and no warning; found set below the limit, it sleeps
  again; found set at the limit, it logs the forced-shutdown warning and the stopped line
  and returns. So, on a running service reached from a new one: with no tick in flight
  \<^verbatim>\<open>stop()\<close> returns without sleeping; with a tick that settles during sleep \<open>k\<close> it returns
  after exactly \<open>k + 1\<close> sleeps without the warning; with a tick that never settles a firing
  after the disarming changes nothing and the call returns after exactly 30 sleeps with
  the warning followed by the stopped line, the service neither running nor armed.
\<close>

theorem bounded_shutdown:
  "fst (stop between s) \<le> stop_maxAttempts \<and> stop_maxAttempts = 30
   \<and> (isRunning s \<longrightarrow> \<not> timer (snd (stop_begin s)) \<and> \<not> isRunning (snd (stop_begin s)))
   \<and> (\<not> isProcessing s \<longrightarrow>
         stop_resume a s = (Returned, logger LOG ''Price update service stopped'' s))
   \<and> (isProcessing s \<and> a + 1 < stop_maxAttempts \<longrightarrow>
         stop_resume a s = (Sleeping (a + 1), s\<lparr>out := out s @ [Sleep 1000]\<rparr>))
   \<and> (isProcessing s \<and> \<not> a + 1 < stop_maxAttempts \<longrightarrow>
         stop_resume a s
           = (Returned, logger LOG ''Price update service stopped''
                          (logger WARN ''Forced shutdown after timeout'' s)))
   \<and> (s = run evs (new_service i) \<and> isRunning s \<and> \<not> isProcessing s \<longrightarrow>
         stop between s
           = (0, s\<lparr>timer := False, isRunning := False, armedIntervals := 0,
                   out := out s @ [Log LOG ''Stopping price update service...'',
                                   Log LOG ''Price update service stopped'']\<rparr>))
   \<and> (s = run evs (new_service i) \<and> isRunning s \<and> isProcessing s \<longrightarrow>
         step TimerFire (snd (stop_begin s)) = snd (stop_begin s)
       \<and> stop (\<lambda>k. run (replicate (fires k) TimerFire)) s
           = (30,
              s\<lparr>timer := False, isRunning := False, armedIntervals := 0,
                out := out s @ [Log LOG ''Stopping price update service...'',
                                Log LOG ''Waiting for current price update to complete...'']
                             @ replicate 30 (Sleep 1000)
                             @ [Log WARN ''Forced shutdown after timeout'',
                                Log LOG ''Price update service stopped'']\<rparr>)
       \<and> (k < stop_maxAttempts \<longrightarrow>
            stop (\<lambda>n s'. if n = k then step (TickSettled thrown) s' else s') s
              = (Suc k,
                 s\<lparr>timer := False, isRunning := False, isProcessing := False,
                   armedIntervals := 0, ticksInFlight := 0,
                   out := out s @ [Log LOG ''Stopping price update service...'',
                                   Log LOG ''Waiting for current price update to complete...'']
                                @ replicate (Suc k) (Sleep 1000)
                                @ (case thrown of
                                     None \<Rightarrow> []
                                   | Some err \<Rightarrow>
                                       [Log ERROR (''Error updating prices: '' @ message err)])
                                @ [Log LOG ''Price update service stopped'']\<rparr>)))"
proof (intro conjI impI)
  show "fst (stop between s) \<le> stop_maxAttempts" by (rule stop_bound)
  show "stop_maxAttempts = 30" by (simp add: stop_maxAttempts_def)
next
  assume "isRunning s"
  then show "\<not> timer (snd (stop_begin s))" by simp
  show "\<not> isRunning (snd (stop_begin s))" by simp
next
  assume "\<not> isProcessing s"
  then show "stop_resume a s = (Returned, logger LOG ''Price update service stopped'' s)"
    by (rule poll_flag_clear)
next
  assume "isProcessing s \<and> a + 1 < stop_maxAttempts"
  then show "stop_resume a s = (Sleeping (a + 1), s\<lparr>out := out s @ [Sleep 1000]\<rparr>)"
    using poll_flag_set by blast
next
  assume "isProcessing s \<and> \<not> a + 1 < stop_maxAttempts"
  then show "stop_resume a s
           = (Returned, logger LOG ''Price update service stopped''
                          (logger WARN ''Forced shutdown after timeout'' s))"
    using poll_at_limit by blast
next
  assume h: "s = run evs (new_service i) \<and> isRunning s \<and> \<not> isProcessing s"
  from h have 1: "s = run evs (new_service i)" by blast
  from h have 2: "isRunning s" by blast
  from h have 3: "\<not> isProcessing s" by blast
  show "stop between s
           = (0, s\<lparr>timer := False, isRunning := False, armedIntervals := 0,
                   out := out s @ [Log LOG ''Stopping price update service...'',
                                   Log LOG ''Price update service stopped'']\<rparr>)"
    by (rule stop_idle [OF 1 2 3])
next
  assume h: "s = run evs (new_service i) \<and> isRunning s \<and> isProcessing s"
  from h have 1: "s = run evs (new_service i)" by blast
  from h have 2: "isRunning s" by blast
  from h have 3: "isProcessing s" by blast
  show "step TimerFire (snd (stop_begin s)) = snd (stop_begin s)"
    using stop_stuck_tick [of between s evs i fires] h by blast
  show "stop (\<lambda>k. run (replicate (fires k) TimerFire)) s
           = (30,
              s\<lparr>timer := False, isRunning := False, armedIntervals := 0,
                out := out s @ [Log LOG ''Stopping price update service...'',
                                Log LOG ''Waiting for current price update to complete...'']
                             @ replicate 30 (Sleep 1000)
                             @ [Log WARN ''Forced shutdown after timeout'',
                                Log LOG ''Price update service stopped'']\<rparr>)"
    using stop_stuck_tick [of between s evs i fires] h by blast
  assume k: "k < stop_maxAttempts"
  show "stop (\<lambda>n s'. if n = k then step (TickSettled thrown) s' else s') s
              = (Suc k,
                 s\<lparr>timer := False, isRunning := False, isProcessing := False,
                   armedIntervals := 0, ticksInFlight := 0,
                   out := out s @ [Log LOG ''Stopping price update service...'',
                                   Log LOG ''Waiting for current price update to complete...'']
                                @ replicate (Suc k) (Sleep 1000)
                                @ (case thrown of
                                     None \<Rightarrow> []
                                   | Some err \<Rightarrow>
                                       [Log ERROR (''Error updating prices: '' @ message err)])
                                @ [Log LOG ''Price update service stopped'']\<rparr>)"
    by (rule stop_settled [OF 1 2 3 k])
qed

theorem bounded_shutdown_witness:
  "isRunning (run [CallStart] (new_service 5))
   \<and> isProcessing (run [CallStart] (new_service 5))
   \<and> fst (stop (\<lambda>k. run (replicate 2 TimerFire)) (run [CallStart] (new_service 5))) = 30
   \<and> \<not> isRunning (snd (stop (\<lambda>k. run (replicate 2 TimerFire)) (run [CallStart] (new_service 5))))
   \<and> \<not> timer (snd (stop (\<lambda>k. run (replicate 2 TimerFire)) (run [CallStart] (new_service 5))))
   \<and> lines_at WARN (out (snd (stop (\<lambda>k. run (replicate 2 TimerFire))
                                   (run [CallStart] (new_service 5)))))
       = [''Forced shutdown after timeout'']
   \<and> sum_list (sleeps_of (out (snd (stop (\<lambda>k. run (replicate 2 TimerFire))
                                         (run [CallStart] (new_service 5)))))) = 30000
   \<and> (2::nat) < stop_maxAttempts
   \<and> fst (stop (\<lambda>n s'. if n = 2 then step (TickSettled None) s' else s')
              (run [CallStart] (new_service 5))) = 3
   \<and> lines_at WARN (out (snd (stop (\<lambda>n s'. if n = 2 then step (TickSettled None) s' else s')
                                   (run [CallStart] (new_service 5))))) = []
   \<and> sleeps_of (out (snd (stop (\<lambda>n s'. if n = 2 then step (TickSettled None) s' else s')
                               (run [CallStart] (new_service 5))))) = [1000, 1000, 1000]
   \<and> isRunning (run [CallStart, TickSettled None] (new_service 5))
   \<and> \<not> isProcessing (run [CallStart, TickSettled None] (new_service 5))
   \<and> fst (stop (\<lambda>n s'. s') (run [CallStart, TickSettled None] (new_service 5))) = 0
   \<and> sleeps_of (out (snd (stop (\<lambda>n s'. s') (run [CallStart, TickSettled None] (new_service 5)))))
       = []
   \<and> stop_resume 4 (run [CallStart, TickSettled None] (new_service 5))
       = (Returned, logger LOG ''Price update service stopped''
                      (run [CallStart, TickSettled None] (new_service 5)))
   \<and> fst (stop_resume 4 (run [CallStart] (new_service 5))) = Sleeping 5
   \<and> fst (stop_resume 29 (run [CallStart] (new_service 5))) = Returned"
proof -
  define s0 where "s0 = run [CallStart] (new_service 5)"
  define s1 where "s1 = run [CallStart, TickSettled None] (new_service 5)"
  have h: "s0 = run [CallStart] (new_service 5) \<and> isRunning s0 \<and> isProcessing s0"
    by (simp add: s0_def step_def start_def new_service_def Let_def logger_def)
  have h1: "s1 = run [CallStart, TickSettled None] (new_service 5) \<and> isRunning s1
            \<and> \<not> isProcessing s1"
    by (simp add: s1_def step_def start_def new_service_def Let_def logger_def
          updatePrices_begin_def)
  from h have hr: "isRunning s0" by blast
  from h have hp: "isProcessing s0" by blast
  from h1 have hr1: "isRunning s1" by blast
  from h1 have hp1: "\<not> isProcessing s1" by blast
  have k: "(2::nat) < stop_maxAttempts" by (simp add: stop_maxAttempts_def)
  have o: "out s0 = [Log LOG ''Starting price update service (interval: 5 seconds)...'']"
    by (simp add: s0_def step_def start_def new_service_def Let_def logger_def
          updatePrices_begin_def show_nat.simps digit_char_def)
  have o1: "out s1 = [Log LOG ''Starting price update service (interval: 5 seconds)...'']"
    by (simp add: s1_def step_def start_def new_service_def Let_def logger_def
          updatePrices_begin_def updatePrices_end_def show_nat.simps digit_char_def)
  have sl: "sleeps_of (replicate 30 (Sleep 1000)) = replicate 30 1000"
    by (simp add: numeral_eq_Suc)
  have wl: "lines_at WARN (replicate 30 (Sleep 1000)) = []"
    by (simp add: numeral_eq_Suc)
  have sm: "sum_list (replicate 30 (1000::nat)) = 30000"
    by (simp add: sum_list_replicate)
  note b0 = bounded_shutdown [where s = s0 and evs = "[CallStart]" and i = 5
              and fires = "\<lambda>k. 2" and k = 2 and thrown = None and a = 4]
  note b29 = bounded_shutdown [where s = s0 and a = 29]
  note b1 = bounded_shutdown [where s = s1 and evs = "[CallStart, TickSettled None]" and i = 5
              and between = "\<lambda>n s'. s'" and a = 4]
  from b0 h
  have e: "stop (\<lambda>k. run (replicate 2 TimerFire)) s0
           = (30,
              s0\<lparr>timer := False, isRunning := False, armedIntervals := 0,
                out := out s0 @ [Log LOG ''Stopping price update service...'',
                                Log LOG ''Waiting for current price update to complete...'']
                             @ replicate 30 (Sleep 1000)
                             @ [Log WARN ''Forced shutdown after timeout'',
                                Log LOG ''Price update service stopped'']\<rparr>)"
    by blast
  from b0 h k
  have e2: "stop (\<lambda>n s'. if n = 2 then step (TickSettled None) s' else s') s0
              = (Suc 2,
                 s0\<lparr>timer := False, isRunning := False, isProcessing := False,
                   armedIntervals := 0, ticksInFlight := 0,
                   out := out s0 @ [Log LOG ''Stopping price update service...'',
                                   Log LOG ''Waiting for current price update to complete...'']
                                @ replicate (Suc 2) (Sleep 1000)
                                @ (case None of
                                     None \<Rightarrow> []
                                   | Some err \<Rightarrow>
                                       [Log ERROR (''Error updating prices: '' @ message err)])
                                @ [Log LOG ''Price update service stopped'']\<rparr>)"
    by blast
  from b1 h1
  have e1: "stop (\<lambda>n s'. s') s1
           = (0, s1\<lparr>timer := False, isRunning := False, armedIntervals := 0,
                   out := out s1 @ [Log LOG ''Stopping price update service...'',
                                   Log LOG ''Price update service stopped'']\<rparr>)"
    by blast
  from b1 hp1
  have p1: "stop_resume 4 s1 = (Returned, logger LOG ''Price update service stopped'' s1)"
    by blast
  have lt: "(4::nat) + 1 < stop_maxAttempts" "\<not> (29::nat) + 1 < stop_maxAttempts"
    by (simp_all add: stop_maxAttempts_def)
  from b0 hp lt(1)
  have p0: "stop_resume 4 s0 = (Sleeping (4 + 1), s0\<lparr>out := out s0 @ [Sleep 1000]\<rparr>)"
    by blast
  from b29 hp lt(2)
  have p29: "stop_resume 29 s0
           = (Returned, logger LOG ''Price update service stopped''
                          (logger WARN ''Forced shutdown after timeout'' s0))"
    by blast
  have "isRunning s0
   \<and> isProcessing s0
   \<and> fst (stop (\<lambda>k. run (replicate 2 TimerFire)) s0) = 30
   \<and> \<not> isRunning (snd (stop (\<lambda>k. run (replicate 2 TimerFire)) s0))
   \<and> \<not> timer (snd (stop (\<lambda>k. run (replicate 2 TimerFire)) s0))
   \<and> lines_at WARN (out (snd (stop (\<lambda>k. run (replicate 2 TimerFire)) s0)))
       = [''Forced shutdown after timeout'']
   \<and> sum_list (sleeps_of (out (snd (stop (\<lambda>k. run (replicate 2 TimerFire)) s0)))) = 30000"
    using hr hp unfolding e fst_conv snd_conv
    by (simp add: o sleeps_of_append lines_at_append sl wl sm
          del: replicate.simps replicate_Suc)
  moreover have "fst (stop (\<lambda>n s'. if n = 2 then step (TickSettled None) s' else s') s0) = 3
   \<and> lines_at WARN (out (snd (stop (\<lambda>n s'. if n = 2 then step (TickSettled None) s' else s')
                                   s0))) = []
   \<and> sleeps_of (out (snd (stop (\<lambda>n s'. if n = 2 then step (TickSettled None) s' else s') s0)))
       = [1000, 1000, 1000]"
    unfolding e2 fst_conv snd_conv
    by (simp add: o sleeps_of_append lines_at_append numeral_eq_Suc)
  moreover have "isRunning s1 \<and> \<not> isProcessing s1
   \<and> fst (stop (\<lambda>n s'. s') s1) = 0
   \<and> sleeps_of (out (snd (stop (\<lambda>n s'. s') s1))) = []"
    using hr1 hp1 unfolding e1 fst_conv snd_conv
    by (simp add: o1 sleeps_of_append)
  moreover have "fst (stop_resume 4 s0) = Sleeping 5" unfolding p0 by simp
  moreover have "fst (stop_resume 29 s0) = Returned" unfolding p29 by simp
  ultimately show ?thesis using k p1 unfolding s0_def s1_def by blast
qed

text \<open>
  C8, as the claim states it, fails: with a tick in flight the first \<^verbatim>\<open>stop()\<close> suspends
  in its wait loop, and a second \<^verbatim>\<open>stop()\<close> called meanwhile returns at once, while the
  tick is still in flight.
\<close>

theorem second_stop_counterexample:
  "isRunning (start (new_service 5))
   \<and> isProcessing (start (new_service 5))
   \<and> fst (stop_begin (start (new_service 5))) = Sleeping 0
   \<and> fst (stop_begin (snd (stop_begin (start (new_service 5))))) = Returned
   \<and> isProcessing (snd (stop_begin (snd (stop_begin (start (new_service 5))))))
   \<and> stopCalls (run [CallStart, CallStop, CallStop] (new_service 5)) = [Sleeping 0, Returned]
   \<and> ticksInFlight (run [CallStart, CallStop, CallStop] (new_service 5)) = 1"
  by (simp add: step_def start_def new_service_def Let_def stop_begin_def stop_loop_def
        stop_maxAttempts_def logger_def updatePrices_begin_def)


text \<open>
  C8, amended. A \<^verbatim>\<open>stop()\<close> called after another \<^verbatim>\<open>stop()\<close> has begun returns at once: it
  logs that the service is not running and sleeps never, so only the first caller waits.
  \<^verbatim>\<open>onModuleDestroy()\<close> shares the outcome: a second call awaits the promise of the first
  and changes nothing, and the first starts one \<^verbatim>\<open>stop()\<close> and stores its promise.
\<close>

theorem stop_idempotence:
  "fst (stop_begin (snd (stop_begin s))) = Returned
   \<and> snd (stop_begin (snd (stop_begin s)))
       = logger WARN ''Price update service is not running'' (snd (stop_begin s))
   \<and> sleeps_of (out (snd (stop_begin (snd (stop_begin s))))) = sleeps_of (out (snd (stop_begin s)))
   \<and> fst (onModuleDestroy (snd (onModuleDestroy s))) = fst (onModuleDestroy s)
   \<and> snd (onModuleDestroy (snd (onModuleDestroy s))) = snd (onModuleDestroy s)
   \<and> stopCalls (snd (onModuleDestroy s))
       = (case shutdownPromise s of
            None \<Rightarrow> stopCalls s @ [fst (stop_begin s)]
          | Some p \<Rightarrow> stopCalls s)
   \<and> shutdownPromise (snd (onModuleDestroy s))
       = (case shutdownPromise s of None \<Rightarrow> Some (length (stopCalls s)) | Some p \<Rightarrow> Some p)"
proof (intro conjI)
  have nr: "\<not> isRunning (snd (stop_begin s))" by simp
  show "fst (stop_begin (snd (stop_begin s))) = Returned"
    using nr by (simp add: stop_begin_def [of "snd (stop_begin s)"])
  show 2: "snd (stop_begin (snd (stop_begin s)))
       = logger WARN ''Price update service is not running'' (snd (stop_begin s))"
    using nr by (simp add: stop_begin_def [of "snd (stop_begin s)"])
  show "sleeps_of (out (snd (stop_begin (snd (stop_begin s))))) = sleeps_of (out (snd (stop_begin s)))"
    unfolding 2 by (simp add: sleeps_of_append)
  show "fst (onModuleDestroy (snd (onModuleDestroy s))) = fst (onModuleDestroy s)"
    by (cases "shutdownPromise s") (simp_all add: onModuleDestroy_def Let_def)
  show "snd (onModuleDestroy (snd (onModuleDestroy s))) = snd (onModuleDestroy s)"
    by (cases "shutdownPromise s") (simp_all add: onModuleDestroy_def Let_def)
  show "stopCalls (snd (onModuleDestroy s))
       = (case shutdownPromise s of
            None \<Rightarrow> stopCalls s @ [fst (stop_begin s)]
          | Some p \<Rightarrow> stopCalls s)"
    by (cases "shutdownPromise s") (simp_all add: onModuleDestroy_def Let_def)
  show "shutdownPromise (snd (onModuleDestroy s))
       = (case shutdownPromise s of None \<Rightarrow> Some (length (stopCalls s)) | Some p \<Rightarrow> Some p)"
    by (cases "shutdownPromise s") (simp_all add: onModuleDestroy_def Let_def)
qed



section \<open>The price column: what is read back\<close>

















end
